theory Spec2Isabelle
  imports Main "HOL-Library.Char_ord" "HOL-Library.List_Lexorder"
begin

section \<open>JSON documents and Python values\<close>

text \<open>
  The provider exchanges JSON documents with the remote service and handles them as
  Python values: \<open>None\<close>, booleans, integers, strings, lists and dicts. A dict is an
  association list in insertion order whose keys are distinct; \<open>map_of\<close> looks a key up.
  JSON numbers are integers here (the fields the provider reads, TTLs, priorities, flags and
  page counts, are integers).
\<close>

datatype json =
    JNull
  | JBool bool
  | JInt int
  | JStr string
  | JList "json list"
  | JDict "(string \<times> json) list"

type_synonym dict = "(string \<times> json) list"

text \<open>
  The exceptions of the source. \<open>HTTPError\<close> is what \<open>raise_for_status\<close> raises,
  \<open>ValueError\<close> what \<open>resp.json()\<close> raises on a body that is not JSON.
  \<open>CloudflareAuthenticationError\<close> carries the message the exception was built with.
  \<open>Unmodelled\<close> marks the few places where the result would depend on how Python 2 prints
  or orders a value of an unexpected JSON type; \<open>OutOfFuel\<close> stands for a paging loop that
  has not stopped within the given number of rounds.
\<close>

datatype error =
    IndexError
  | KeyError
  | TypeError
  | ValueError
  | AttributeError
  | HTTPError int
  | CloudflareAuthenticationError json
  | Unmodelled
  | OutOfFuel

text \<open>\<open>obj[key]\<close> for a string key: only a dict can be indexed by a string.\<close>

fun getitem_str :: "json \<Rightarrow> string \<Rightarrow> error + json" where
  "getitem_str (JDict d) k = (case map_of d k of None \<Rightarrow> Inl KeyError | Some v \<Rightarrow> Inr v)"
| "getitem_str _ k = Inl TypeError"

text \<open>
  \<open>obj[i]\<close> for an integer: lists and strings are sequences (a negative index counts from
  the end), a dict of string keys has no integer key, anything else cannot be indexed.
\<close>

definition seq_index :: "nat \<Rightarrow> int \<Rightarrow> nat option" where
  "seq_index len i =
     (if 0 \<le> i then (if i < int len then Some (nat i) else None)
      else (if 0 \<le> int len + i then Some (nat (int len + i)) else None))"

fun getitem_int :: "json \<Rightarrow> int \<Rightarrow> error + json" where
  "getitem_int (JList xs) i =
     (case seq_index (length xs) i of None \<Rightarrow> Inl IndexError | Some n \<Rightarrow> Inr (xs ! n))"
| "getitem_int (JStr s) i =
     (case seq_index (length s) i of None \<Rightarrow> Inl IndexError | Some n \<Rightarrow> Inr (JStr [s ! n]))"
| "getitem_int (JDict d) i = Inl KeyError"
| "getitem_int _ i = Inl TypeError"

section \<open>The wire: requests, responses and the provider's state\<close>

text \<open>
  A path is the URL template of the source together with the values substituted for its
  \<open>{}\<close> placeholders: \<open>/zones\<close>, \<open>/zones/{}/dns_records\<close> and
  \<open>/zones/{}/dns_records/{}\<close>.
\<close>

datatype path =
    Zones
  | DnsRecords json
  | DnsRecord json json

record request =
  rq_method :: string
  rq_path :: path
  rq_params :: "int option"
  rq_data :: "json option"

text \<open>
  What the session returns: the status code and the body, \<open>None\<close> when the body is not
  JSON.
\<close>

record response =
  status_code :: int
  body :: "json option"

text \<open>
  The provider object. \<open>sess\<close> is the HTTP session: it answers a request, and its answer
  may depend on every request sent before. \<open>sent\<close> records the requests in the order they
  were issued. \<open>zones_cache\<close> is \<open>self._zones\<close> and \<open>zone_records_cache\<close> is
  \<open>self._zone_records\<close>.
\<close>

record provider =
  sess :: "request list \<Rightarrow> request \<Rightarrow> response"
  sent :: "request list"
  zones_cache :: "dict option"
  zone_records_cache :: "string \<rightharpoonup> json"

text \<open>
  \<open>CloudflareAuthenticationError.__init__\<close>: the exception that
  \<open>raise CloudflareAuthenticationError(data)\<close> ends with. \<open>IndexError\<close> and
  \<open>KeyError\<close> are caught and replaced by the generic message; any other exception of the
  lookup leaves the constructor.
\<close>

definition CloudflareAuthenticationError_init :: "json \<Rightarrow> error" where
  "CloudflareAuthenticationError_init data =
     (case (case getitem_str data ''errors'' of
              Inl e \<Rightarrow> Inl e
            | Inr errors \<Rightarrow>
                (case getitem_int errors 0 of
                   Inl e \<Rightarrow> Inl e
                 | Inr first \<Rightarrow> getitem_str first ''message'')) of
        Inr message \<Rightarrow> CloudflareAuthenticationError message
      | Inl IndexError \<Rightarrow> CloudflareAuthenticationError (JStr ''Authentication error'')
      | Inl KeyError \<Rightarrow> CloudflareAuthenticationError (JStr ''Authentication error'')
      | Inl e \<Rightarrow> e)"

text \<open>
  \<open>_request\<close>: send one request and read the answer. Status 403 raises the
  authentication error, \<open>raise_for_status\<close> raises for the other 4xx and 5xx codes, and
  otherwise the JSON body is returned. The request is recorded whatever the outcome.
\<close>

definition request ::
  "provider \<Rightarrow> string \<Rightarrow> path \<Rightarrow> int option \<Rightarrow> json option \<Rightarrow> (error + json) \<times> provider" where
  "request self m p ps d =
     (let rq = \<lparr>rq_method = m, rq_path = p, rq_params = ps, rq_data = d\<rparr>;
          resp = sess self (sent self) rq;
          self' = self\<lparr>sent := sent self @ [rq]\<rparr>
      in if status_code resp = 403 then
           (case body resp of
              None \<Rightarrow> (Inl ValueError, self')
            | Some j \<Rightarrow> (Inl (CloudflareAuthenticationError_init j), self'))
         else if 400 \<le> status_code resp \<and> status_code resp < 600 then
           (Inl (HTTPError (status_code resp)), self')
         else
           (case body resp of
              None \<Rightarrow> (Inl ValueError, self')
            | Some j \<Rightarrow> (Inr j, self')))"

section \<open>Python's rules for the values the service sends\<close>

text \<open>Truth value of a Python object (\<open>if not zone_id\<close>).\<close>

fun truthy :: "json \<Rightarrow> bool" where
  "truthy JNull = False"
| "truthy (JBool b) = b"
| "truthy (JInt n) = (n \<noteq> 0)"
| "truthy (JStr s) = (s \<noteq> [])"
| "truthy (JList xs) = (xs \<noteq> [])"
| "truthy (JDict d) = (d \<noteq> [])"

text \<open>
  The elements a \<open>for\<close> loop or \<open>+=\<close> on a list takes from a value: a list gives its
  elements, a dict its keys, a string its characters; nothing else is iterable.
\<close>

fun py_iter :: "json \<Rightarrow> error + json list" where
  "py_iter (JList xs) = Inr xs"
| "py_iter (JDict d) = Inr (map (\<lambda>kv. JStr (fst kv)) d)"
| "py_iter (JStr s) = Inr (map (\<lambda>c. JStr [c]) s)"
| "py_iter _ = Inl TypeError"

text \<open>
  \<open>'{}.'.format(x)\<close>: a string followed by a dot. How Python 2 prints a value that is
  no string is outside the model.
\<close>

fun format_dot :: "json \<Rightarrow> error + string" where
  "format_dot (JStr s) = Inr (s @ ''.'')"
| "format_dot _ = Inl Unmodelled"

text \<open>
  \<open>d[k] = v\<close> on a dict: an existing key keeps its place and takes the new value, a new
  key goes to the end.
\<close>

fun dict_set :: "'k \<Rightarrow> 'v \<Rightarrow> ('k \<times> 'v) list \<Rightarrow> ('k \<times> 'v) list" where
  "dict_set k v [] = [(k, v)]"
| "dict_set k v (kv # d) = (if fst kv = k then (k, v) # d else kv # dict_set k v d)"

text \<open>\<open>d.pop(k)\<close> once the key is known to be there, and \<open>d.pop(k, None)\<close>.\<close>

fun dict_pop :: "'k \<Rightarrow> ('k \<times> 'v) list \<Rightarrow> ('k \<times> 'v) list" where
  "dict_pop k [] = []"
| "dict_pop k (kv # d) = (if fst kv = k then d else kv # dict_pop k d)"

section \<open>The zone and record directory\<close>

text \<open>
  \<open>info['count'] > 0 and info['count'] == info['per_page']\<close>. The second operand is only
  looked up when the first holds. \<open>None > 0\<close> is false in Python 2, a boolean counts as
  the integer 0 or 1, and an integer equals no string, list or dict; a count that is a string,
  a list or a dict is outside the model.
\<close>

fun same_number :: "int \<Rightarrow> json \<Rightarrow> bool" where
  "same_number c (JInt p) = (c = p)"
| "same_number c (JBool b) = (c = (if b then 1 else 0))"
| "same_number c _ = False"

fun count_value :: "json \<Rightarrow> error + int option" where
  "count_value (JInt c) = Inr (Some c)"
| "count_value (JBool b) = Inr (Some (if b then 1 else 0))"
| "count_value JNull = Inr None"
| "count_value _ = Inl Unmodelled"

definition more_pages :: "json \<Rightarrow> error + bool" where
  "more_pages info =
     (case getitem_str info ''count'' of
        Inl e \<Rightarrow> Inl e
      | Inr count \<Rightarrow>
          (case count_value count of
             Inl e \<Rightarrow> Inl e
           | Inr None \<Rightarrow> Inr False
           | Inr (Some c) \<Rightarrow>
               if c > 0 then
                 (case getitem_str info ''per_page'' of
                    Inl e \<Rightarrow> Inl e
                  | Inr per_page \<Rightarrow> Inr (same_number c per_page))
               else Inr False))"

text \<open>
  The paging loop of \<open>zones\<close> and of \<open>zone_records\<close> (the two loops differ in the path
  only): request the page, add its \<open>result\<close> to what was collected, go on with the next
  page while the page was full. The first argument bounds the number of rounds.
\<close>

fun list_pages ::
  "nat \<Rightarrow> provider \<Rightarrow> path \<Rightarrow> int \<Rightarrow> json list \<Rightarrow> (error + json list) \<times> provider" where
  "list_pages 0 self p page acc = (Inl OutOfFuel, self)"
| "list_pages (Suc fuel) self p page acc =
     (case request self ''GET'' p (Some page) None of
        (Inl e, self') \<Rightarrow> (Inl e, self')
      | (Inr resp, self') \<Rightarrow>
          (case getitem_str resp ''result'' of
             Inl e \<Rightarrow> (Inl e, self')
           | Inr result \<Rightarrow>
               (case py_iter result of
                  Inl e \<Rightarrow> (Inl e, self')
                | Inr items \<Rightarrow>
                    (case getitem_str resp ''result_info'' of
                       Inl e \<Rightarrow> (Inl e, self')
                     | Inr info \<Rightarrow>
                         (case more_pages info of
                            Inl e \<Rightarrow> (Inl e, self')
                          | Inr again \<Rightarrow>
                              if again then list_pages fuel self' p (page + 1) (acc @ items)
                              else (Inr (acc @ items), self'))))))"

text \<open>
  The dict comprehension \<open>{'{}.'.format(z['name']): z['id'] for z in zones}\<close>. Python 2
  evaluates the value of an item before its key.
\<close>

definition zone_entry :: "json \<Rightarrow> error + (string \<times> json)" where
  "zone_entry z =
     (case getitem_str z ''id'' of
        Inl e \<Rightarrow> Inl e
      | Inr i \<Rightarrow>
          (case getitem_str z ''name'' of
             Inl e \<Rightarrow> Inl e
           | Inr n \<Rightarrow>
               (case format_dot n of
                  Inl e \<Rightarrow> Inl e
                | Inr k \<Rightarrow> Inr (k, i))))"

fun zones_dict :: "json list \<Rightarrow> dict \<Rightarrow> error + dict" where
  "zones_dict [] d = Inr d"
| "zones_dict (z # zs) d =
     (case zone_entry z of
        Inl e \<Rightarrow> Inl e
      | Inr (k, i) \<Rightarrow> zones_dict zs (dict_set k i d))"

text \<open>The \<open>zones\<close> property: the cached mapping, fetched page by page on first use.\<close>

definition zones :: "nat \<Rightarrow> provider \<Rightarrow> (error + dict) \<times> provider" where
  "zones fuel self =
     (case zones_cache self of
        Some d \<Rightarrow> (Inr d, self)
      | None \<Rightarrow>
          (case list_pages fuel self Zones 1 [] of
             (Inl e, self') \<Rightarrow> (Inl e, self')
           | (Inr zs, self') \<Rightarrow>
               (case zones_dict zs [] of
                  Inl e \<Rightarrow> (Inl e, self')
                | Inr d \<Rightarrow> (Inr d, self'\<lparr>zones_cache := Some d\<rparr>))))"

text \<open>
  \<open>zone_records\<close>: the cached records of a zone. A zone without an identifier has no
  records, and nothing is cached for it.
\<close>

definition zone_records :: "nat \<Rightarrow> provider \<Rightarrow> string \<Rightarrow> (error + json) \<times> provider" where
  "zone_records fuel self zone_name =
     (case zone_records_cache self zone_name of
        Some records \<Rightarrow> (Inr records, self)
      | None \<Rightarrow>
          (case zones fuel self of
             (Inl e, self1) \<Rightarrow> (Inl e, self1)
           | (Inr zs, self1) \<Rightarrow>
               (let zone_id = (case map_of zs zone_name of None \<Rightarrow> JBool False | Some i \<Rightarrow> i)
                in if \<not> truthy zone_id then (Inr (JList []), self1)
                   else
                     (case list_pages fuel self1 (DnsRecords zone_id) 1 [] of
                        (Inl e, self2) \<Rightarrow> (Inl e, self2)
                      | (Inr records, self2) \<Rightarrow>
                          (Inr (JList records),
                           self2\<lparr>zone_records_cache :=
                                    (zone_records_cache self2)(zone_name \<mapsto> JList records)\<rparr>)))))"

text \<open>
  A fake listing for the pagination property: the answer to the request for page \<open>page\<close>
  of a listing of \<open>items\<close> in pages of \<open>per_page\<close> items.
\<close>

definition fake_page :: "json list \<Rightarrow> nat \<Rightarrow> int \<Rightarrow> response" where
  "fake_page items per_page page =
     (let result = take per_page (drop (nat (page - 1) * per_page) items)
      in \<lparr>status_code = 200,
          body = Some (JDict [(''result'', JList result),
                              (''result_info'',
                               JDict [(''count'', JInt (int (length result))),
                                      (''per_page'', JInt (int per_page))])])\<rparr>)"

definition get_page :: "path \<Rightarrow> nat \<Rightarrow> request" where
  "get_page p k = \<lparr>rq_method = ''GET'', rq_path = p, rq_params = Some (int k), rq_data = None\<rparr>"

definition fake_provider :: "json list \<Rightarrow> nat \<Rightarrow> provider" where
  "fake_provider items per_page =
     \<lparr>sess = (\<lambda>h rq. fake_page items per_page (case rq_params rq of None \<Rightarrow> 1 | Some k \<Rightarrow> k)),
      sent = [], zones_cache = None, zone_records_cache = Map.empty\<rparr>"

section \<open>Canonical records\<close>

text \<open>
  Modelled from the spec: the canonical record of the planning engine (the record module is
  not part of the sources at hand). A record has the name of its zone, its relative name,
  its fully-qualified name \<open>fqdn\<close>, its type, its TTL and its value or values: a single
  target for CNAME and ALIAS (\<open>record.value\<close>), a list of strings for A, AAAA, NS, SPF and
  TXT, of CAA values or of MX values (\<open>record.values\<close>). The records belong to the planning
  engine and the core only reads them: \<open>r_data\<close> is the dict that \<open>record.data\<close> hands out,
  the data of the record made into a dict for the one who asks, who may change that dict
  without changing the record.
\<close>

datatype caa_value = CaaValue (caa_flags: int) (caa_tag: string) (caa_value: string)

datatype mx_value = MxValue (mx_preference: int) (mx_exchange: string)

datatype payload =
    Value string
  | Values "string list"
  | CAAValues "caa_value list"
  | MXValues "mx_value list"

record dns_record =
  r_zone_name :: string
  r_name :: string
  r_fqdn :: string
  r_type :: string
  r_ttl :: int
  r_payload :: payload
  r_data :: dict

definition MIN_TTL :: int where
  "MIN_TTL = 120"

definition SUPPORTS :: "string set" where
  "SUPPORTS = {''ALIAS'', ''A'', ''AAAA'', ''CAA'', ''CNAME'', ''MX'', ''NS'', ''SPF'', ''TXT''}"

section \<open>The wire record codec\<close>

text \<open>
  \<open>s.replace(old, new)\<close> for a non-empty \<open>old\<close>: the occurrences are replaced from left
  to right, without overlap.
\<close>

fun str_replace :: "string \<Rightarrow> string \<Rightarrow> string \<Rightarrow> string" where
  "str_replace old new [] = []"
| "str_replace old new (c # cs) =
     (if take (length old) (c # cs) = old
      then new @ str_replace old new (drop (length old - 1) cs)
      else c # str_replace old new cs)"

text \<open>The two-character string \<open>\;\<close>: a backslash and a semicolon.\<close>

definition escaped_semicolon :: string where
  "escaped_semicolon = [CHR 0x5C, CHR '';'']"

text \<open>A list comprehension whose element expression may raise: the first exception ends it.\<close>

fun map_err :: "('a \<Rightarrow> error + 'b) \<Rightarrow> 'a list \<Rightarrow> error + 'b list" where
  "map_err f [] = Inr []"
| "map_err f (x # xs) =
     (case f x of
        Inl e \<Rightarrow> Inl e
      | Inr y \<Rightarrow> (case map_err f xs of Inl e \<Rightarrow> Inl e | Inr ys \<Rightarrow> Inr (y # ys)))"

text \<open>\<open>records[0]['ttl']\<close>.\<close>

definition first_ttl :: "json list \<Rightarrow> error + json" where
  "first_ttl records = (case records of [] \<Rightarrow> Inl IndexError | r # _ \<Rightarrow> getitem_str r ''ttl'')"

text \<open>Decoding: \<open>_data_for_multiple\<close>, which is also \<open>_data_for_A\<close>, \<open>_AAAA\<close> and \<open>_SPF\<close>.\<close>

definition data_for_multiple :: "string \<Rightarrow> json list \<Rightarrow> error + dict" where
  "data_for_multiple type records =
     (case first_ttl records of
        Inl e \<Rightarrow> Inl e
      | Inr ttl \<Rightarrow>
          (case map_err (\<lambda>r. getitem_str r ''content'') records of
             Inl e \<Rightarrow> Inl e
           | Inr vs \<Rightarrow> Inr [(''ttl'', ttl), (''type'', JStr type), (''values'', JList vs)]))"

text \<open>\<open>r['content'].replace(';', '\;')\<close>: only a string has the method \<open>replace\<close>.\<close>

definition txt_content :: "json \<Rightarrow> error + json" where
  "txt_content r =
     (case getitem_str r ''content'' of
        Inl e \<Rightarrow> Inl e
      | Inr (JStr s) \<Rightarrow> Inr (JStr (str_replace '';'' escaped_semicolon s))
      | Inr _ \<Rightarrow> Inl AttributeError)"

definition data_for_TXT :: "string \<Rightarrow> json list \<Rightarrow> error + dict" where
  "data_for_TXT type records =
     (case first_ttl records of
        Inl e \<Rightarrow> Inl e
      | Inr ttl \<Rightarrow>
          (case map_err txt_content records of
             Inl e \<Rightarrow> Inl e
           | Inr vs \<Rightarrow> Inr [(''ttl'', ttl), (''type'', JStr type), (''values'', JList vs)]))"

text \<open>\<open>_data_for_CAA\<close> collects the \<open>data\<close> of every record before it reads the TTL.\<close>

definition data_for_CAA :: "string \<Rightarrow> json list \<Rightarrow> error + dict" where
  "data_for_CAA type records =
     (case map_err (\<lambda>r. getitem_str r ''data'') records of
        Inl e \<Rightarrow> Inl e
      | Inr vs \<Rightarrow>
          (case first_ttl records of
             Inl e \<Rightarrow> Inl e
           | Inr ttl \<Rightarrow> Inr [(''ttl'', ttl), (''type'', JStr type), (''values'', JList vs)]))"

text \<open>\<open>_data_for_CNAME\<close>, which is also \<open>_data_for_ALIAS\<close>: the first record only.\<close>

definition data_for_CNAME :: "string \<Rightarrow> json list \<Rightarrow> error + dict" where
  "data_for_CNAME type records =
     (case records of
        [] \<Rightarrow> Inl IndexError
      | only # _ \<Rightarrow>
          (case getitem_str only ''ttl'' of
             Inl e \<Rightarrow> Inl e
           | Inr ttl \<Rightarrow>
               (case getitem_str only ''content'' of
                  Inl e \<Rightarrow> Inl e
                | Inr content \<Rightarrow>
                    (case format_dot content of
                       Inl e \<Rightarrow> Inl e
                     | Inr v \<Rightarrow> Inr [(''ttl'', ttl), (''type'', JStr type), (''value'', JStr v)]))))"

definition mx_data :: "json \<Rightarrow> error + json" where
  "mx_data r =
     (case getitem_str r ''priority'' of
        Inl e \<Rightarrow> Inl e
      | Inr priority \<Rightarrow>
          (case getitem_str r ''content'' of
             Inl e \<Rightarrow> Inl e
           | Inr content \<Rightarrow>
               (case format_dot content of
                  Inl e \<Rightarrow> Inl e
                | Inr exchange \<Rightarrow>
                    Inr (JDict [(''preference'', priority), (''exchange'', JStr exchange)]))))"

definition data_for_MX :: "string \<Rightarrow> json list \<Rightarrow> error + dict" where
  "data_for_MX type records =
     (case map_err mx_data records of
        Inl e \<Rightarrow> Inl e
      | Inr vs \<Rightarrow>
          (case first_ttl records of
             Inl e \<Rightarrow> Inl e
           | Inr ttl \<Rightarrow> Inr [(''ttl'', ttl), (''type'', JStr type), (''values'', JList vs)]))"

definition ns_content :: "json \<Rightarrow> error + json" where
  "ns_content r =
     (case getitem_str r ''content'' of
        Inl e \<Rightarrow> Inl e
      | Inr content \<Rightarrow> (case format_dot content of Inl e \<Rightarrow> Inl e | Inr v \<Rightarrow> Inr (JStr v)))"

definition data_for_NS :: "string \<Rightarrow> json list \<Rightarrow> error + dict" where
  "data_for_NS type records =
     (case first_ttl records of
        Inl e \<Rightarrow> Inl e
      | Inr ttl \<Rightarrow>
          (case map_err ns_content records of
             Inl e \<Rightarrow> Inl e
           | Inr vs \<Rightarrow> Inr [(''ttl'', ttl), (''type'', JStr type), (''values'', JList vs)]))"

text \<open>
  \<open>getattr(self, '_data_for_{}'.format(_type))\<close>: the decoder of a type; a type without
  one raises \<open>AttributeError\<close>.
\<close>

definition data_for :: "string \<Rightarrow> json list \<Rightarrow> error + dict" where
  "data_for type records =
     (if type = ''A'' \<or> type = ''AAAA'' \<or> type = ''SPF'' then data_for_multiple type records
      else if type = ''TXT'' then data_for_TXT type records
      else if type = ''CAA'' then data_for_CAA type records
      else if type = ''CNAME'' \<or> type = ''ALIAS'' then data_for_CNAME type records
      else if type = ''MX'' then data_for_MX type records
      else if type = ''NS'' then data_for_NS type records
      else Inl AttributeError)"

text \<open>
  The body of the inner loop of \<open>populate\<close>: the data of the records that share the
  relative name \<open>name\<close> and the wire type \<open>type\<close>. A CNAME at the root of the zone is an
  ALIAS.
\<close>

definition populate_data :: "string \<Rightarrow> string \<Rightarrow> json list \<Rightarrow> error + dict" where
  "populate_data name type records =
     (let type = (if type = ''CNAME'' \<and> name = '''' then ''ALIAS'' else type)
      in data_for type records)"

text \<open>
  Encoding. \<open>record.values\<close> does not exist on a single-valued record and
  \<open>record.value\<close> not on a multi-valued one (\<open>AttributeError\<close>). A loop over values of
  the wrong kind raises at its first value, so over no values it raises nothing. A value
  object used as \<open>content\<close> cannot be serialised: the source raises \<open>TypeError\<close> when the
  fragment is first serialised, the model when it is built.
\<close>

fun contents_for_multiple :: "payload \<Rightarrow> error + dict list" where
  "contents_for_multiple (Values vs) = Inr (map (\<lambda>v. [(''content'', JStr v)]) vs)"
| "contents_for_multiple (CAAValues vs) = (if vs = [] then Inr [] else Inl TypeError)"
| "contents_for_multiple (MXValues vs) = (if vs = [] then Inr [] else Inl TypeError)"
| "contents_for_multiple (Value v) = Inl AttributeError"

fun contents_for_CAA :: "payload \<Rightarrow> error + dict list" where
  "contents_for_CAA (CAAValues vs) =
     Inr (map (\<lambda>v. [(''data'', JDict [(''flags'', JInt (caa_flags v)),
                                        (''tag'', JStr (caa_tag v)),
                                        (''value'', JStr (caa_value v))])]) vs)"
| "contents_for_CAA (Values vs) = (if vs = [] then Inr [] else Inl AttributeError)"
| "contents_for_CAA (MXValues vs) = (if vs = [] then Inr [] else Inl AttributeError)"
| "contents_for_CAA (Value v) = Inl AttributeError"

fun contents_for_TXT :: "payload \<Rightarrow> error + dict list" where
  "contents_for_TXT (Values vs) =
     Inr (map (\<lambda>v. [(''content'', JStr (str_replace escaped_semicolon '';'' v))]) vs)"
| "contents_for_TXT (CAAValues vs) = (if vs = [] then Inr [] else Inl AttributeError)"
| "contents_for_TXT (MXValues vs) = (if vs = [] then Inr [] else Inl AttributeError)"
| "contents_for_TXT (Value v) = Inl AttributeError"

fun contents_for_CNAME :: "payload \<Rightarrow> error + dict list" where
  "contents_for_CNAME (Value v) = Inr [[(''content'', JStr v)]]"
| "contents_for_CNAME _ = Inl AttributeError"

fun contents_for_MX :: "payload \<Rightarrow> error + dict list" where
  "contents_for_MX (MXValues vs) =
     Inr (map (\<lambda>v. [(''priority'', JInt (mx_preference v)),
                     (''content'', JStr (mx_exchange v))]) vs)"
| "contents_for_MX (Values vs) = (if vs = [] then Inr [] else Inl AttributeError)"
| "contents_for_MX (CAAValues vs) = (if vs = [] then Inr [] else Inl AttributeError)"
| "contents_for_MX (Value v) = Inl AttributeError"

text \<open>\<open>getattr(self, '_contents_for_{}'.format(_type))\<close>; there is no encoder named ALIAS.\<close>

definition contents_for :: "string \<Rightarrow> payload \<Rightarrow> error + dict list" where
  "contents_for type p =
     (if type = ''A'' \<or> type = ''AAAA'' \<or> type = ''NS'' \<or> type = ''SPF''
      then contents_for_multiple p
      else if type = ''CAA'' then contents_for_CAA p
      else if type = ''TXT'' then contents_for_TXT p
      else if type = ''CNAME'' then contents_for_CNAME p
      else if type = ''MX'' then contents_for_MX p
      else Inl AttributeError)"

text \<open>\<open>d.update(other)\<close>.\<close>

definition dict_update :: "('k \<times> 'v) list \<Rightarrow> ('k \<times> 'v) list \<Rightarrow> ('k \<times> 'v) list" where
  "dict_update d other = fold (\<lambda>kv. dict_set (fst kv) (snd kv)) other d"

text \<open>
  \<open>_gen_contents\<close>: the fragments of a record, each with the record's name without the
  final dot, the wire type (CNAME for an ALIAS) and the TTL, at least \<open>MIN_TTL\<close>.
\<close>

definition gen_contents :: "dns_record \<Rightarrow> error + dict list" where
  "gen_contents record =
     (let name = butlast (r_fqdn record);
          type = r_type record;
          ttl = max MIN_TTL (r_ttl record);
          type = (if type = ''ALIAS'' then ''CNAME'' else type)
      in case contents_for type (r_payload record) of
           Inl e \<Rightarrow> Inl e
         | Inr contents \<Rightarrow>
             Inr (map (\<lambda>content. dict_update content
                         [(''name'', JStr name), (''type'', JStr type), (''ttl'', JInt ttl)])
                    contents))"

text \<open>
  Decoding what encoding produced: the fragments of a record, read as the wire records of
  the record's type.
\<close>

definition decode_encode :: "dns_record \<Rightarrow> error + dict" where
  "decode_encode record =
     (case gen_contents record of
        Inl e \<Rightarrow> Inl e
      | Inr contents \<Rightarrow> data_for (r_type record) (map JDict contents))"

text \<open>
  Modelled from the spec: the value or values of a canonical record as they stand in a data
  dict (\<open>value\<close> for a single-valued record, \<open>values\<close> otherwise; a CAA value with its
  \<open>flags\<close>, \<open>tag\<close> and \<open>value\<close>, an MX value with its \<open>preference\<close> and \<open>exchange\<close>).
\<close>

fun payload_data :: "payload \<Rightarrow> string \<times> json" where
  "payload_data (Value v) = (''value'', JStr v)"
| "payload_data (Values vs) = (''values'', JList (map JStr vs))"
| "payload_data (CAAValues vs) =
     (''values'', JList (map (\<lambda>v. JDict [(''flags'', JInt (caa_flags v)),
                                            (''tag'', JStr (caa_tag v)),
                                            (''value'', JStr (caa_value v))]) vs))"
| "payload_data (MXValues vs) =
     (''values'', JList (map (\<lambda>v. JDict [(''preference'', JInt (mx_preference v)),
                                            (''exchange'', JStr (mx_exchange v))]) vs))"

text \<open>
  A record as the planning engine hands it over: a supported type, values of the kind the
  type takes, at least one of them, and in a TXT value every semicolon escaped.
\<close>

fun semicolons_escaped :: "string \<Rightarrow> bool" where
  "semicolons_escaped [] = True"
| "semicolons_escaped [c] = (c \<noteq> CHR '';'')"
| "semicolons_escaped (a # b # cs) =
     (if a = CHR 0x5C \<and> b = CHR '';'' then semicolons_escaped cs
      else a \<noteq> CHR '';'' \<and> semicolons_escaped (b # cs))"

fun canonical :: "string \<Rightarrow> payload \<Rightarrow> bool" where
  "canonical type (Value v) = (type = ''CNAME'' \<or> type = ''ALIAS'')"
| "canonical type (Values vs) =
     (vs \<noteq> [] \<and>
      (type = ''A'' \<or> type = ''AAAA'' \<or> type = ''SPF'' \<or> type = ''NS'' \<or>
       type = ''TXT'' \<and> list_all semicolons_escaped vs))"
| "canonical type (CAAValues vs) = (vs \<noteq> [] \<and> type = ''CAA'')"
| "canonical type (MXValues vs) = (vs \<noteq> [] \<and> type = ''MX'')"

text \<open>
  The targets of a record with one more dot at their end, for the types whose decoder
  appends one (CNAME, ALIAS, NS and the exchange of MX).
\<close>

fun dotted :: "string \<Rightarrow> payload \<Rightarrow> payload" where
  "dotted type (Value v) = Value (v @ ''.'')"
| "dotted type (Values vs) = (if type = ''NS'' then Values (map (\<lambda>v. v @ ''.'') vs) else Values vs)"
| "dotted type (CAAValues vs) = CAAValues vs"
| "dotted type (MXValues vs) =
     MXValues (map (\<lambda>v. MxValue (mx_preference v) (mx_exchange v @ ''.'')) vs)"

text \<open>A record of the zone \<open>unit.tests.\<close>, for the examples.\<close>

definition example_record :: "string \<Rightarrow> string \<Rightarrow> int \<Rightarrow> payload \<Rightarrow> dns_record" where
  "example_record name type ttl p =
     \<lparr>r_zone_name = ''unit.tests.'', r_name = name,
      r_fqdn = (if name = [] then ''unit.tests.'' else name @ ''.unit.tests.''),
      r_type = type, r_ttl = ttl, r_payload = p,
      r_data = [(''ttl'', JInt ttl), (''type'', JStr type), payload_data p]\<rparr>"

section \<open>The change filter\<close>

text \<open>
  Modelled from the spec: the abstract change of the planning engine, \<open>Create(new)\<close>,
  \<open>Update(existing, new)\<close> or \<open>Delete(existing)\<close>, and \<open>change.record\<close>, the record a
  change is about: the new record when there is one, the existing record of a \<open>Delete\<close>.
\<close>

datatype change =
    Create dns_record
  | Update dns_record dns_record
  | Delete dns_record

fun change_record :: "change \<Rightarrow> dns_record" where
  "change_record (Create new) = new"
| "change_record (Update existing new) = new"
| "change_record (Delete existing) = existing"

text \<open>
  Modelled from the spec: the generic policy of the base provider, to which the filter
  delegates every change it does not reject itself; it accepts by default.
\<close>

definition base_include_change :: "change \<Rightarrow> bool" where
  "base_include_change c = True"

text \<open>
  \<open>json.dumps(..., sort_keys=True)\<close> writes the items of every dict, at any depth, in the
  order of their keys: the value with its dicts so ordered.
\<close>

fun sort_keys :: "json \<Rightarrow> json" where
  "sort_keys (JList xs) = JList (map sort_keys xs)"
| "sort_keys (JDict d) = JDict (sort_key fst (map (\<lambda>kv. (fst kv, sort_keys (snd kv))) d))"
| "sort_keys j = j"

text \<open>
  \<open>a == b\<close> on dicts: the same keys with equal values, whatever the order of the keys, at
  any depth. (That Python also takes \<open>True\<close> and \<open>1\<close> for equal is left out.)
\<close>

definition dict_eq :: "dict \<Rightarrow> dict \<Rightarrow> bool" where
  "dict_eq a b =
     (set (map fst a) = set (map fst b) \<and>
      list_all (\<lambda>k. map_option sort_keys (map_of a k) = map_option sort_keys (map_of b k))
        (map fst a))"

text \<open>
  \<open>max(120, x)\<close> in Python 2: \<open>None\<close> is smaller than every number, a boolean is the
  number 0 or 1, and every string, list and dict is larger than every number.
\<close>

fun max_120 :: "json \<Rightarrow> json" where
  "max_120 (JInt t) = JInt (max 120 t)"
| "max_120 (JBool b) = JInt 120"
| "max_120 JNull = JInt 120"
| "max_120 x = x"

text \<open>
  \<open>new = change.new.data\<close> followed by \<open>new['ttl'] = max(120, new['ttl'])\<close>: the dict
  named \<open>new\<close> after the assignment. Data without a TTL raises \<open>KeyError\<close>.
\<close>

definition clamp_ttl :: "dict \<Rightarrow> error + dict" where
  "clamp_ttl new =
     (case map_of new ''ttl'' of
        None \<Rightarrow> Inl KeyError
      | Some ttl \<Rightarrow> Inr (dict_set ''ttl'' (max_120 ttl) new))"

text \<open>
  \<open>_include_change\<close>. The result is the decision together with the change as the call
  leaves it. The clamped TTL is assigned in the dict that \<open>change.new.data\<close> handed out,
  which is compared with the existing data; the records of the change are not written to, so
  the change is left as it came.
\<close>

definition include_change :: "change \<Rightarrow> (error + bool) \<times> change" where
  "include_change c =
     (if r_type (change_record c) = ''NS'' \<and> r_name (change_record c) = '''' then (Inr False, c)
      else
        (case c of
           Update existing new \<Rightarrow>
             (case clamp_ttl (r_data new) of
                Inl e \<Rightarrow> (Inl e, c)
              | Inr new_data \<Rightarrow>
                  if dict_eq new_data (r_data existing) then (Inr False, c)
                  else (Inr (base_include_change c), c))
         | _ \<Rightarrow> (Inr (base_include_change c), c)))"

section \<open>The reconciliation engine\<close>

text \<open>
  \<open>_hash_content\<close>: \<open>hash(dumps(content, sort_keys=True))\<close>. The parameter \<open>H\<close> stands for
  the text of a value whose dicts are in key order, hashed: the fingerprint depends on the
  content with its keys sorted, on nothing else.
\<close>

definition hash_content :: "(json \<Rightarrow> 'h) \<Rightarrow> dict \<Rightarrow> 'h" where
  "hash_content H content = H (sort_keys (JDict content))"

text \<open>
  The dict comprehension \<open>{self._hash_content(c): c for c in contents}\<close>. The dict is kept
  in insertion order; Python 2 leaves the order of a dict's items open.
\<close>

definition contents_dict :: "(json \<Rightarrow> 'h) \<Rightarrow> dict list \<Rightarrow> ('h \<times> dict) list" where
  "contents_dict H contents = fold (\<lambda>c d. dict_set (hash_content H c) c d) contents []"

text \<open>\<open>existing_contents.values()[0].keys()\<close>: the keys of the first content.\<close>

definition first_keys :: "('h \<times> dict) list \<Rightarrow> error + string list" where
  "first_keys existing_contents =
     (case existing_contents of
        [] \<Rightarrow> Inl IndexError
      | kv # _ \<Rightarrow> Inr (map fst (snd kv)))"

text \<open>
  The loop that finds the things to add: a new content whose hash is among the existing ones
  is left alone (and popped from them), any other is added.
\<close>

fun find_adds ::
  "('h \<times> dict) list \<Rightarrow> ('h \<times> dict) list \<Rightarrow> dict list \<Rightarrow> ('h \<times> dict) list \<times> dict list" where
  "find_adds [] existing_contents adds = (existing_contents, adds)"
| "find_adds (kc # new_items) existing_contents adds =
     (if fst kc \<in> set (map fst existing_contents)
      then find_adds new_items (dict_pop (fst kc) existing_contents) adds
      else find_adds new_items existing_contents (adds @ [snd kc]))"

text \<open>
  \<open>content['content'] += '.'\<close>: a string takes the dot at its end, a list takes the
  one-character string as a new element, anything else raises \<open>TypeError\<close>.
\<close>

fun iadd_dot :: "json \<Rightarrow> error + json" where
  "iadd_dot (JStr s) = Inr (JStr (s @ ''.''))"
| "iadd_dot (JList xs) = Inr (JList (xs @ [JStr ''.'']))"
| "iadd_dot _ = Inl TypeError"

text \<open>
  The dict of the relevant keys and values of a live record:
  \<open>for k in keys: content[k] = record[k]\<close>, then the dot for CNAME, MX and NS.
\<close>

fun project :: "string list \<Rightarrow> json \<Rightarrow> dict \<Rightarrow> error + dict" where
  "project [] record content = Inr content"
| "project (k # keys) record content =
     (case getitem_str record k of
        Inl e \<Rightarrow> Inl e
      | Inr v \<Rightarrow> project keys record (dict_set k v content))"

definition record_content :: "string list \<Rightarrow> string \<Rightarrow> json \<Rightarrow> error + dict" where
  "record_content keys type record =
     (case project keys record [] of
        Inl e \<Rightarrow> Inl e
      | Inr content \<Rightarrow>
          if type = ''CNAME'' \<or> type = ''MX'' \<or> type = ''NS'' then
            (case map_of content ''content'' of
               None \<Rightarrow> Inl KeyError
             | Some v \<Rightarrow>
                 (case iadd_dot v of
                    Inl e \<Rightarrow> Inl e
                  | Inr v' \<Rightarrow> Inr (dict_set ''content'' v' content)))
          else Inr content)"

text \<open>
  What the loop over the zone's records decides about one record, before it sends anything:
  \<open>None\<close> when the record is left alone (another name or type, or contents that are
  wanted), the path of the record when it has to be swapped or removed.
\<close>

definition unwanted ::
  "(json \<Rightarrow> 'h) \<Rightarrow> string list \<Rightarrow> ('h \<times> dict) list \<Rightarrow> string \<Rightarrow> string \<Rightarrow> json \<Rightarrow>
   error + path option" where
  "unwanted H keys new_contents name type record =
     (case getitem_str record ''name'' of
        Inl e \<Rightarrow> Inl e
      | Inr n \<Rightarrow>
          if n \<noteq> JStr name then Inr None
          else
            (case getitem_str record ''type'' of
               Inl e \<Rightarrow> Inl e
             | Inr t \<Rightarrow>
                 if t \<noteq> JStr type then Inr None
                 else
                   (case record_content keys type record of
                      Inl e \<Rightarrow> Inl e
                    | Inr content \<Rightarrow>
                        if hash_content H content \<in> set (map fst new_contents) then Inr None
                        else
                          (case getitem_str record ''id'' of
                             Inl e \<Rightarrow> Inl e
                           | Inr rid \<Rightarrow>
                               (case getitem_str record ''zone_id'' of
                                  Inl e \<Rightarrow> Inl e
                                | Inr zone_id \<Rightarrow> Inr (Some (DnsRecord zone_id rid)))))))"

text \<open>
  The loop over the zone's records: an unwanted record is swapped for the first content still
  to add (\<open>PUT\<close>), or removed when nothing is left to add (\<open>DELETE\<close>). It returns the
  contents that remain to be added.
\<close>

fun swap_or_remove ::
  "(json \<Rightarrow> 'h) \<Rightarrow> string list \<Rightarrow> ('h \<times> dict) list \<Rightarrow> string \<Rightarrow> string \<Rightarrow>
   provider \<Rightarrow> json list \<Rightarrow> dict list \<Rightarrow> (error + dict list) \<times> provider" where
  "swap_or_remove H keys new_contents name type self [] adds = (Inr adds, self)"
| "swap_or_remove H keys new_contents name type self (record # records) adds =
     (case unwanted H keys new_contents name type record of
        Inl e \<Rightarrow> (Inl e, self)
      | Inr None \<Rightarrow> swap_or_remove H keys new_contents name type self records adds
      | Inr (Some p) \<Rightarrow>
          (case adds of
             add_content # adds' \<Rightarrow>
               (case request self ''PUT'' p None (Some (JDict add_content)) of
                  (Inl e, self') \<Rightarrow> (Inl e, self')
                | (Inr _, self') \<Rightarrow>
                    swap_or_remove H keys new_contents name type self' records adds')
           | [] \<Rightarrow>
               (case request self ''DELETE'' p None None of
                  (Inl e, self') \<Rightarrow> (Inl e, self')
                | (Inr _, self') \<Rightarrow>
                    swap_or_remove H keys new_contents name type self' records [])))"

text \<open>\<open>for content in contents: self._request('POST', path, data=content)\<close>.\<close>

fun create_all :: "provider \<Rightarrow> path \<Rightarrow> dict list \<Rightarrow> (error + unit) \<times> provider" where
  "create_all self p [] = (Inr (), self)"
| "create_all self p (content # contents) =
     (case request self ''POST'' p None (Some (JDict content)) of
        (Inl e, self') \<Rightarrow> (Inl e, self')
      | (Inr _, self') \<Rightarrow> create_all self' p contents)"

text \<open>\<open>_apply_Create\<close>: one \<open>POST\<close> for each fragment of the new record.\<close>

definition apply_Create :: "nat \<Rightarrow> provider \<Rightarrow> dns_record \<Rightarrow> (error + unit) \<times> provider" where
  "apply_Create fuel self new =
     (case zones fuel self of
        (Inl e, self1) \<Rightarrow> (Inl e, self1)
      | (Inr zs, self1) \<Rightarrow>
          (case map_of zs (r_zone_name new) of
             None \<Rightarrow> (Inl KeyError, self1)
           | Some zone_id \<Rightarrow>
               (case gen_contents new of
                  Inl e \<Rightarrow> (Inl e, self1)
                | Inr contents \<Rightarrow> create_all self1 (DnsRecords zone_id) contents)))"

text \<open>\<open>_apply_Update\<close>.\<close>

definition apply_Update ::
  "(json \<Rightarrow> 'h) \<Rightarrow> nat \<Rightarrow> provider \<Rightarrow> dns_record \<Rightarrow> dns_record \<Rightarrow> (error + unit) \<times> provider" where
  "apply_Update H fuel self existing new =
     (case gen_contents existing of
        Inl e \<Rightarrow> (Inl e, self)
      | Inr existing_fragments \<Rightarrow>
     (case gen_contents new of
        Inl e \<Rightarrow> (Inl e, self)
      | Inr new_fragments \<Rightarrow>
     (let existing_contents = contents_dict H existing_fragments;
          new_contents = contents_dict H new_fragments
      in
     (case first_keys existing_contents of
        Inl e \<Rightarrow> (Inl e, self)
      | Inr keys \<Rightarrow>
     (let adds = snd (find_adds new_contents existing_contents [])
      in
     (case zones fuel self of
        (Inl e, self1) \<Rightarrow> (Inl e, self1)
      | (Inr zs, self1) \<Rightarrow>
     (case map_of zs (r_zone_name new) of
        None \<Rightarrow> (Inl KeyError, self1)
      | Some zone_id \<Rightarrow>
     (case zone_records fuel self1 (r_zone_name new) of
        (Inl e, self2) \<Rightarrow> (Inl e, self2)
      | (Inr listed, self2) \<Rightarrow>
     (case py_iter listed of
        Inl e \<Rightarrow> (Inl e, self2)
      | Inr records \<Rightarrow>
     (case swap_or_remove H keys new_contents (butlast (r_fqdn new)) (r_type new)
             self2 records adds of
        (Inl e, self3) \<Rightarrow> (Inl e, self3)
      | (Inr adds', self3) \<Rightarrow> create_all self3 (DnsRecords zone_id) adds'))))))))))"

text \<open>\<open>_apply_Delete\<close>: one \<open>DELETE\<close> for each listed record of the name and type.\<close>

fun delete_matching ::
  "string \<Rightarrow> string \<Rightarrow> provider \<Rightarrow> json list \<Rightarrow> (error + unit) \<times> provider" where
  "delete_matching name type self [] = (Inr (), self)"
| "delete_matching name type self (record # records) =
     (case getitem_str record ''name'' of
        Inl e \<Rightarrow> (Inl e, self)
      | Inr n \<Rightarrow>
          if n \<noteq> JStr name then delete_matching name type self records
          else
            (case getitem_str record ''type'' of
               Inl e \<Rightarrow> (Inl e, self)
             | Inr t \<Rightarrow>
                 if t \<noteq> JStr type then delete_matching name type self records
                 else
                   (case getitem_str record ''zone_id'' of
                      Inl e \<Rightarrow> (Inl e, self)
                    | Inr zone_id \<Rightarrow>
                        (case getitem_str record ''id'' of
                           Inl e \<Rightarrow> (Inl e, self)
                         | Inr rid \<Rightarrow>
                             (case request self ''DELETE'' (DnsRecord zone_id rid) None None of
                                (Inl e, self') \<Rightarrow> (Inl e, self')
                              | (Inr _, self') \<Rightarrow> delete_matching name type self' records)))))"

definition apply_Delete :: "nat \<Rightarrow> provider \<Rightarrow> dns_record \<Rightarrow> (error + unit) \<times> provider" where
  "apply_Delete fuel self existing =
     (case zone_records fuel self (r_zone_name existing) of
        (Inl e, self1) \<Rightarrow> (Inl e, self1)
      | (Inr listed, self1) \<Rightarrow>
          (case py_iter listed of
             Inl e \<Rightarrow> (Inl e, self1)
           | Inr records \<Rightarrow>
               delete_matching (butlast (r_fqdn existing)) (r_type existing) self1 records))"

section \<open>The zone provisioner\<close>

text \<open>\<open>getattr(self, '_apply_{}'.format(class_name))(change)\<close>.\<close>

fun apply_change ::
  "(json \<Rightarrow> 'h) \<Rightarrow> nat \<Rightarrow> provider \<Rightarrow> change \<Rightarrow> (error + unit) \<times> provider" where
  "apply_change H fuel self (Create new) = apply_Create fuel self new"
| "apply_change H fuel self (Update existing new) = apply_Update H fuel self existing new"
| "apply_change H fuel self (Delete existing) = apply_Delete fuel self existing"

fun apply_changes ::
  "(json \<Rightarrow> 'h) \<Rightarrow> nat \<Rightarrow> provider \<Rightarrow> change list \<Rightarrow> (error + unit) \<times> provider" where
  "apply_changes H fuel self [] = (Inr (), self)"
| "apply_changes H fuel self (c # changes) =
     (case apply_change H fuel self c of
        (Inl e, self') \<Rightarrow> (Inl e, self')
      | (Inr _, self') \<Rightarrow> apply_changes H fuel self' changes)"

text \<open>
  The first step of \<open>_apply\<close>: a zone that is not among the zones is created, its identifier
  recorded and an empty record cache seeded for it.
\<close>

definition ensure_zone :: "nat \<Rightarrow> provider \<Rightarrow> string \<Rightarrow> (error + unit) \<times> provider" where
  "ensure_zone fuel self name =
     (case zones fuel self of
        (Inl e, self1) \<Rightarrow> (Inl e, self1)
      | (Inr zs, self1) \<Rightarrow>
          if name \<in> set (map fst zs) then (Inr (), self1)
          else
            (case request self1 ''POST'' Zones None
                    (Some (JDict [(''name'', JStr (butlast name)), (''jump_start'', JBool False)])) of
               (Inl e, self2) \<Rightarrow> (Inl e, self2)
             | (Inr resp, self2) \<Rightarrow>
                 (case getitem_str resp ''result'' of
                    Inl e \<Rightarrow> (Inl e, self2)
                  | Inr result \<Rightarrow>
                      (case getitem_str result ''id'' of
                         Inl e \<Rightarrow> (Inl e, self2)
                       | Inr zone_id \<Rightarrow>
                           (Inr (),
                            self2\<lparr>zones_cache := Some (dict_set name zone_id zs),
                                  zone_records_cache :=
                                    (zone_records_cache self2)(name \<mapsto> JDict [])\<rparr>)))))"

text \<open>
  \<open>_apply\<close>, for the plan of the zone \<open>name\<close> with its changes: ensure the zone, apply the
  changes in their order, then clear the zone's entry of the record cache.
\<close>

definition apply_plan ::
  "(json \<Rightarrow> 'h) \<Rightarrow> nat \<Rightarrow> provider \<Rightarrow> string \<Rightarrow> change list \<Rightarrow> (error + unit) \<times> provider" where
  "apply_plan H fuel self name changes =
     (case ensure_zone fuel self name of
        (Inl e, self1) \<Rightarrow> (Inl e, self1)
      | (Inr _, self1) \<Rightarrow>
          (case apply_changes H fuel self1 changes of
             (Inl e, self2) \<Rightarrow> (Inl e, self2)
           | (Inr _, self2) \<Rightarrow>
               (Inr (), self2\<lparr>zone_records_cache := (zone_records_cache self2)(name := None)\<rparr>)))"

text \<open>
  A provider for the examples: the zone \<open>unit.tests.\<close> is known as \<open>z1\<close>, its records
  are listed, and the service answers every request with status 200 and an empty document.
\<close>

definition example_provider :: "json list \<Rightarrow> provider" where
  "example_provider records =
     \<lparr>sess = (\<lambda>h rq. \<lparr>status_code = 200, body = Some (JDict [])\<rparr>),
      sent = [],
      zones_cache = Some [(''unit.tests.'', JStr ''z1'')],
      zone_records_cache = [''unit.tests.'' \<mapsto> JList records]\<rparr>"

definition example_wire :: "string \<Rightarrow> string \<Rightarrow> string \<Rightarrow> string \<Rightarrow> json" where
  "example_wire rid name type content =
     JDict [(''id'', JStr rid), (''zone_id'', JStr ''z1''), (''name'', JStr name),
            (''type'', JStr type), (''ttl'', JInt 300), (''content'', JStr content)]"

section \<open>Vocabulary for the properties of the engine\<close>

text \<open>The mutating requests, as \<open>_request\<close> records them.\<close>

definition put_request :: "path \<Rightarrow> dict \<Rightarrow> request" where
  "put_request p content =
     \<lparr>rq_method = ''PUT'', rq_path = p, rq_params = None, rq_data = Some (JDict content)\<rparr>"

definition delete_request :: "path \<Rightarrow> request" where
  "delete_request p =
     \<lparr>rq_method = ''DELETE'', rq_path = p, rq_params = None, rq_data = None\<rparr>"

definition post_request :: "path \<Rightarrow> dict \<Rightarrow> request" where
  "post_request p content =
     \<lparr>rq_method = ''POST'', rq_path = p, rq_params = None, rq_data = Some (JDict content)\<rparr>"

text \<open>An answer that makes \<open>_request\<close> return: no 4xx or 5xx status, and a JSON body.\<close>

definition accepted :: "response \<Rightarrow> bool" where
  "accepted a = (\<not> (400 \<le> status_code a \<and> status_code a < 600) \<and> body a \<noteq> None)"

text \<open>The service accepts every request that is not a \<open>GET\<close>, whatever was sent before.\<close>

definition mutations_accepted :: "provider \<Rightarrow> bool" where
  "mutations_accepted self = (\<forall>h rq. rq_method rq \<noteq> ''GET'' \<longrightarrow> accepted (sess self h rq))"

text \<open>
  The things to add, as the first loop of \<open>_apply_Update\<close> leaves them: the new contents
  whose hash is not among the hashes of the existing contents.
\<close>

definition contents_to_add :: "(json \<Rightarrow> 'h) \<Rightarrow> dict list \<Rightarrow> dict list \<Rightarrow> dict list" where
  "contents_to_add H existing_fragments new_fragments =
     map snd (filter (\<lambda>kc. fst kc \<notin> set (map fst (contents_dict H existing_fragments)))
                (contents_dict H new_fragments))"

text \<open>
  The listed records that the second loop has to swap or remove, by their paths: those of the
  name and type whose contents are not wanted.
\<close>

definition unwanted_paths ::
  "(json \<Rightarrow> 'h) \<Rightarrow> string list \<Rightarrow> ('h \<times> dict) list \<Rightarrow> string \<Rightarrow> string \<Rightarrow> json list \<Rightarrow> path list" where
  "unwanted_paths H keys new_contents name type records =
     List.map_filter
       (\<lambda>r. case unwanted H keys new_contents name type r of
               Inr (Some p) \<Rightarrow> Some p
             | _ \<Rightarrow> None)
       records"

text \<open>The second loop raises nothing on any of the listed records.\<close>

definition records_readable ::
  "(json \<Rightarrow> 'h) \<Rightarrow> string list \<Rightarrow> ('h \<times> dict) list \<Rightarrow> string \<Rightarrow> string \<Rightarrow> json list \<Rightarrow> bool" where
  "records_readable H keys new_contents name type records =
     list_all (\<lambda>r. case unwanted H keys new_contents name type r of Inr _ \<Rightarrow> True | Inl _ \<Rightarrow> False)
       records"

section \<open>The listed records in the words of the spec\<close>

text \<open>
  The definitions of this section follow the spec, not the source; the lemmas of the section
  on the Update reconciliation compare them with what \<open>_apply_Update\<close> computes.

  The wire type of a canonical type: an ALIAS is a CNAME on the wire.
\<close>

definition wire_type :: "string \<Rightarrow> string" where
  "wire_type type = (if type = ''ALIAS'' then ''CNAME'' else type)"

text \<open>The value of a field of a listed record (\<open>None\<close> for a field it has not).\<close>

definition field :: "dict \<Rightarrow> string \<Rightarrow> json" where
  "field r k = (case map_of r k of None \<Rightarrow> JNull | Some v \<Rightarrow> v)"

text \<open>
  The relevant fields of a listed record: its values for the keys that are compared, where
  the content of a CNAME, MX or NS record, which the service lists without the final dot,
  gets the dot back.
\<close>

fun with_dot :: "json \<Rightarrow> json" where
  "with_dot (JStr s) = JStr (s @ ''.'')"
| "with_dot v = v"

definition relevant_fields :: "string list \<Rightarrow> string \<Rightarrow> dict \<Rightarrow> dict" where
  "relevant_fields keys type r =
     map (\<lambda>k. (k, if k = ''content'' \<and> (type = ''CNAME'' \<or> type = ''MX'' \<or> type = ''NS'')
                    then with_dot (field r k) else field r k))
       keys"

text \<open>The fingerprint of a listed record: that of its relevant fields.\<close>

definition live_fingerprint :: "(json \<Rightarrow> 'h) \<Rightarrow> string list \<Rightarrow> string \<Rightarrow> dict \<Rightarrow> 'h" where
  "live_fingerprint H keys type r = hash_content H (relevant_fields keys type r)"

text \<open>
  The listed records to remove: those whose name and type are the given ones and whose
  fingerprint is not the fingerprint of a wanted fragment.
\<close>

definition to_remove ::
  "(json \<Rightarrow> 'h) \<Rightarrow> string list \<Rightarrow> dict list \<Rightarrow> string \<Rightarrow> string \<Rightarrow> dict list \<Rightarrow> dict list" where
  "to_remove H keys wanted name type live =
     filter (\<lambda>r. map_of r ''name'' = Some (JStr name) \<and>
                  map_of r ''type'' = Some (JStr type) \<and>
                  live_fingerprint H keys type r \<notin> set (map (hash_content H) wanted))
       live"

text \<open>The path of a listed record: \<open>/zones/{zone_id}/dns_records/{id}\<close>.\<close>

definition record_path :: "dict \<Rightarrow> path" where
  "record_path r = DnsRecord (field r ''zone_id'') (field r ''id'')"

text \<open>
  A listed record as the service sends it: it has an identifier, the identifier of its zone,
  a name and a type; a record of the given type has a value for every key that is compared
  and, where the dot is put back, a content that is a string.
\<close>

definition has_string_content :: "dict \<Rightarrow> bool" where
  "has_string_content r = (case map_of r ''content'' of Some (JStr s) \<Rightarrow> True | _ \<Rightarrow> False)"

definition listed_record :: "string list \<Rightarrow> string \<Rightarrow> dict \<Rightarrow> bool" where
  "listed_record keys type r =
     (map_of r ''id'' \<noteq> None \<and> map_of r ''zone_id'' \<noteq> None \<and>
      map_of r ''name'' \<noteq> None \<and> map_of r ''type'' \<noteq> None \<and>
      (map_of r ''type'' = Some (JStr type) \<longrightarrow>
         list_all (\<lambda>k. map_of r k \<noteq> None) keys \<and>
         (type = ''CNAME'' \<or> type = ''MX'' \<or> type = ''NS'' \<longrightarrow>
            ''content'' \<in> set keys \<and> has_string_content r)))"

text \<open>The fields of the listed record of the examples.\<close>

definition example_fields :: "string \<Rightarrow> string \<Rightarrow> string \<Rightarrow> string \<Rightarrow> dict" where
  "example_fields rid name type content =
     [(''id'', JStr rid), (''zone_id'', JStr ''z1''), (''name'', JStr name),
      (''type'', JStr type), (''ttl'', JInt 300), (''content'', JStr content)]"

section \<open>Authentication failures\<close>

lemma request_sess [simp]: "sess (snd (request self m p ps d)) = sess self"
  by (simp add: request_def Let_def split: option.splits)

lemma request_sent [simp]:
  "sent (snd (request self m p ps d)) =
   sent self @ [\<lparr>rq_method = m, rq_path = p, rq_params = ps, rq_data = d\<rparr>]"
  by (simp add: request_def Let_def split: option.splits)

lemma request_zones_cache [simp]:
  "zones_cache (snd (request self m p ps d)) = zones_cache self"
  by (simp add: request_def Let_def split: option.splits)

lemma request_zone_records_cache [simp]:
  "zone_records_cache (snd (request self m p ps d)) = zone_records_cache self"
  by (simp add: request_def Let_def split: option.splits)

lemma request_403_message:
  assumes "sess self (sent self) \<lparr>rq_method = m, rq_path = p, rq_params = ps, rq_data = d\<rparr> =
             \<lparr>status_code = 403, body = Some doc\<rparr>"
    and "getitem_str doc ''errors'' = Inr errors"
    and "getitem_int errors 0 = Inr first"
    and "getitem_str first ''message'' = Inr message"
  shows "fst (request self m p ps d) = Inl (CloudflareAuthenticationError message)"
  using assms by (simp add: request_def Let_def CloudflareAuthenticationError_init_def)

lemma request_403_generic:
  assumes "sess self (sent self) \<lparr>rq_method = m, rq_path = p, rq_params = ps, rq_data = d\<rparr> =
             \<lparr>status_code = 403, body = Some (JDict doc)\<rparr>"
    and "map_of doc ''errors'' = None \<or> map_of doc ''errors'' = Some (JList [])"
  shows "fst (request self m p ps d) =
           Inl (CloudflareAuthenticationError (JStr ''Authentication error''))"
  using assms
  by (auto simp: request_def Let_def CloudflareAuthenticationError_init_def seq_index_def)

text \<open>
  C7. A 403 answer whose body is the JSON document \<open>{"errors": null}\<close> has no message
  to extract, yet the request does not end with the authentication error and its generic
  message: indexing \<open>None\<close> raises \<open>TypeError\<close>, which the constructor does not catch.
  Likewise a 403 answer whose body is not JSON ends with the \<open>ValueError\<close> of
  \<open>resp.json()\<close>.
\<close>

theorem request_403_errors_null_raises_TypeError:
  "fst (request
          \<lparr>sess = (\<lambda>h rq. \<lparr>status_code = 403, body = Some (JDict [(''errors'', JNull)])\<rparr>),
           sent = [], zones_cache = None, zone_records_cache = Map.empty\<rparr>
          ''GET'' Zones (Some 1) None) = Inl TypeError \<and>
   fst (request
          \<lparr>sess = (\<lambda>h rq. \<lparr>status_code = 403, body = None\<rparr>),
           sent = [], zones_cache = None, zone_records_cache = Map.empty\<rparr>
          ''GET'' Zones (Some 1) None) = Inl ValueError"
  by (simp add: request_def Let_def CloudflareAuthenticationError_init_def)

section \<open>Pagination\<close>

lemma request_fake_page:
  assumes "sess self (sent self) (get_page p k) = fake_page items P (int k)"
  shows "request self ''GET'' p (Some (int k)) None =
     (Inr (the (body (fake_page items P (int k)))), self\<lparr>sent := sent self @ [get_page p k]\<rparr>)"
  using assms unfolding request_def get_page_def by (simp add: Let_def fake_page_def)

lemma more_pages_fake:
  "more_pages (JDict [(''count'', JInt (int n)), (''per_page'', JInt (int P))]) =
     Inr (0 < n \<and> n = P)"
  by (simp add: more_pages_def)

lemma list_pages_step:
  assumes "sess self (sent self) (get_page p (Suc k)) = fake_page items P (int (Suc k))"
  shows "list_pages (Suc fuel) self p (int k + 1) acc =
     (let result = take P (drop (k * P) items);
          self' = self\<lparr>sent := sent self @ [get_page p (Suc k)]\<rparr>
      in if 0 < length result \<and> length result = P
         then list_pages fuel self' p (int (Suc k) + 1) (acc @ result)
         else (Inr (acc @ result), self'))"
proof -
  have "request self ''GET'' p (Some (int k + 1)) None =
     (Inr (the (body (fake_page items P (int (Suc k))))), self\<lparr>sent := sent self @ [get_page p (Suc k)]\<rparr>)"
    using request_fake_page [OF assms] by (simp add: add.commute)
  then show ?thesis
    by (simp add: fake_page_def Let_def more_pages_fake del: length_take)
qed

lemma list_pages_full_page:
  assumes "sess self (sent self) (get_page p (Suc k)) = fake_page items P (int (Suc k))"
    and "0 < P" and "P \<le> length items - k * P"
  shows "list_pages (Suc fuel) self p (int k + 1) acc =
     list_pages fuel (self\<lparr>sent := sent self @ [get_page p (Suc k)]\<rparr>) p (int (Suc k) + 1)
       (acc @ take P (drop (k * P) items))"
proof -
  have "length (take P (drop (k * P) items)) = P" using assms(3) by simp
  then show ?thesis
    unfolding list_pages_step [OF assms(1)] Let_def using assms(2) by presburger
qed

lemma list_pages_last_page:
  assumes "sess self (sent self) (get_page p (Suc k)) = fake_page items P (int (Suc k))"
    and "length items - k * P < P"
  shows "list_pages (Suc fuel) self p (int k + 1) acc =
     (Inr (acc @ drop (k * P) items), self\<lparr>sent := sent self @ [get_page p (Suc k)]\<rparr>)"
proof -
  have ne: "length (take P (drop (k * P) items)) \<noteq> P" using assms(2) by simp
  have all: "take P (drop (k * P) items) = drop (k * P) items" using assms(2) by simp
  show ?thesis
    unfolding list_pages_step [OF assms(1)] Let_def using ne by (simp only: all simp_thms if_False)
qed

lemma list_pages_fake:
  assumes P: "0 < P"
    and srv: "\<And>h k. sess self h (get_page p k) = fake_page items P (int k)"
  shows "k * P \<le> length items \<Longrightarrow> (length items - k * P) div P < fuel \<Longrightarrow> sess self' = sess self \<Longrightarrow>
     list_pages fuel self' p (int k + 1) (take (k * P) items) =
       (Inr items, self'\<lparr>sent := sent self' @ map (get_page p) [Suc k ..< length items div P + 2]\<rparr>)"
proof (induction fuel arbitrary: k self')
  case 0
  then show ?case by simp
next
  case (Suc fuel)
  let ?rest = "length items - k * P"
  let ?self'' = "self'\<lparr>sent := sent self' @ [get_page p (Suc k)]\<rparr>"
  have resp: "sess self' (sent self') (get_page p (Suc k)) = fake_page items P (int (Suc k))"
    using srv Suc.prems(3) by simp
  show ?case
  proof (cases "P \<le> ?rest")
    case True
    have k1: "Suc k * P \<le> length items" using True Suc.prems(1) by simp
    have "?rest div P = Suc ((length items - Suc k * P) div P)"
      using True P by (simp add: le_div_geq diff_diff_left add.commute)
    then have fuel: "(length items - Suc k * P) div P < fuel" using Suc.prems(2) by simp
    have acc: "take (k * P) items @ take P (drop (k * P) items) = take (Suc k * P) items"
      using take_add [of "k * P" P items] by (simp add: add.commute)
    have "Suc k \<le> length items div P"
      using k1 P by (simp add: less_eq_div_iff_mult_less_eq)
    then have upt: "[Suc k ..< length items div P + 2] = Suc k # [Suc (Suc k) ..< length items div P + 2]"
      by (simp add: upt_conv_Cons)
    have "list_pages (Suc fuel) self' p (int k + 1) (take (k * P) items) =
          list_pages fuel ?self'' p (int (Suc k) + 1) (take (Suc k * P) items)"
      unfolding list_pages_full_page [OF resp P True] acc ..
    also have "\<dots> = (Inr items, ?self''\<lparr>sent := sent ?self'' @ map (get_page p) [Suc (Suc k) ..< length items div P + 2]\<rparr>)"
      using Suc.IH [OF k1 fuel, of ?self''] Suc.prems(3) by simp
    also have "\<dots> = (Inr items, self'\<lparr>sent := sent self' @ map (get_page p) [Suc k ..< length items div P + 2]\<rparr>)"
      unfolding upt by simp
    finally show ?thesis .
  next
    case False
    then have short: "?rest < P" by simp
    have "length items < Suc k * P" using short Suc.prems(1) by simp
    then have "length items div P = k"
      using Suc.prems(1) P by (metis div_nat_eqI mult.commute)
    then have upt: "[Suc k ..< length items div P + 2] = [Suc k]" by simp
    have acc: "take (k * P) items @ drop (k * P) items = items" by simp
    show ?thesis
      unfolding list_pages_last_page [OF resp short] acc upt by simp
  qed
qed

lemma ceil_div_cases:
  fixes N P :: nat
  assumes "0 < P"
  shows "(N + P - 1) div P = (if P dvd N then N div P else N div P + 1)"
proof -
  define q r where "q = N div P" and "r = N mod P"
  have N: "N = P * q + r" by (simp add: q_def r_def)
  have r: "r < P" using assms by (simp add: r_def)
  show ?thesis
  proof (cases "P dvd N")
    case True
    then have "r = 0" by (simp add: r_def dvd_eq_mod_eq_0)
    then have "P * q \<le> N + P - 1" "N + P - 1 < P * Suc q"
      using assms N by simp_all
    then have "(N + P - 1) div P = q" by (rule div_nat_eqI)
    then show ?thesis using True by (simp add: q_def)
  next
    case False
    then have "0 < r" by (simp add: r_def dvd_eq_mod_eq_0)
    then have "P * Suc q \<le> N + P - 1" "N + P - 1 < P * Suc (Suc q)"
      using N r by simp_all
    then have "(N + P - 1) div P = Suc q" by (rule div_nat_eqI)
    then show ?thesis using False by (simp add: q_def)
  qed
qed

text \<open>
  C4 (as amended). Against a listing of \<open>N\<close> items served in pages of \<open>P > 0\<close> items, the
  paging loop returns exactly the \<open>N\<close> items, in the listing's order, after
  \<open>N div P + 1\<close> page requests for the pages \<open>1, 2, \<dots>\<close>: that is \<open>ceil(N/P)\<close>
  requests when \<open>P\<close> does not divide \<open>N\<close>, and one more when it does, because a full last
  page makes the loop ask for the next, empty one.
\<close>

theorem list_pages_fake_listing:
  assumes "0 < P"
    and "\<forall>h k. sess self h (get_page p k) = fake_page items P (int k)"
    and "length items div P < fuel"
  shows "list_pages fuel self p 1 [] =
           (Inr items,
            self\<lparr>sent := sent self @ map (get_page p) [1 ..< length items div P + 2]\<rparr>) \<and>
         length (map (get_page p) [1 ..< length items div P + 2]) =
           (if P dvd length items then (length items + P - 1) div P + 1
            else (length items + P - 1) div P)"
proof
  show "list_pages fuel self p 1 [] =
          (Inr items,
           self\<lparr>sent := sent self @ map (get_page p) [1 ..< length items div P + 2]\<rparr>)"
    using list_pages_fake [of P self p items 0 fuel self] assms by simp
  show "length (map (get_page p) [1 ..< length items div P + 2]) =
          (if P dvd length items then (length items + P - 1) div P + 1
           else (length items + P - 1) div P)"
    using ceil_div_cases [OF assms(1), of "length items"] by simp
qed

theorem list_pages_fake_listing_witness:
  "list_pages 3 (fake_provider [JInt 1, JInt 2, JInt 3, JInt 4, JInt 5] 2)
     (DnsRecords (JStr ''z'')) 1 [] =
     (Inr [JInt 1, JInt 2, JInt 3, JInt 4, JInt 5],
      (fake_provider [JInt 1, JInt 2, JInt 3, JInt 4, JInt 5] 2)
        \<lparr>sent := map (get_page (DnsRecords (JStr ''z''))) [1, 2, 3]\<rparr>)"
  using list_pages_fake_listing [of 2 "fake_provider [JInt 1, JInt 2, JInt 3, JInt 4, JInt 5] 2"
     "DnsRecords (JStr ''z'')" "[JInt 1, JInt 2, JInt 3, JInt 4, JInt 5]" 3]
  by (simp add: fake_provider_def get_page_def upt_rec)

text \<open>
  The claim as stated fails when the page size divides the number of items: four items in
  pages of two are listed with three requests, not \<open>ceil(4/2) = 2\<close>.
\<close>

theorem list_pages_full_last_page_counterexample:
  "fst (list_pages 5 (fake_provider [JInt 1, JInt 2, JInt 3, JInt 4] 2) Zones 1 []) =
     Inr [JInt 1, JInt 2, JInt 3, JInt 4] \<and>
   length (sent (snd (list_pages 5 (fake_provider [JInt 1, JInt 2, JInt 3, JInt 4] 2) Zones 1 []))) = 3 \<and>
   (length [JInt 1, JInt 2, JInt 3, JInt 4] + 2 - 1) div 2 = (2::nat)"
proof -
  have "list_pages 5 (fake_provider [JInt 1, JInt 2, JInt 3, JInt 4] 2) Zones 1 [] =
          (Inr [JInt 1, JInt 2, JInt 3, JInt 4],
           (fake_provider [JInt 1, JInt 2, JInt 3, JInt 4] 2)
             \<lparr>sent := map (get_page Zones) [1, 2, 3]\<rparr>)"
    by (simp add: fake_provider_def eval_nat_numeral request_def fake_page_def more_pages_def
        get_page_def Let_def)
  then show ?thesis by simp
qed

section \<open>Round trip through the codec\<close>


lemma escape_unescape:
  "semicolons_escaped s \<Longrightarrow>
   str_replace '';'' escaped_semicolon (str_replace escaped_semicolon '';'' s) = s"
  by (induction s rule: semicolons_escaped.induct) (auto simp: escaped_semicolon_def)

lemma map_err_map:
  assumes "\<And>x. x \<in> set xs \<Longrightarrow> f (g x) = Inr (h x)"
  shows "map_err f (map g xs) = Inr (map h xs)"
  using assms by (induction xs) auto

lemma first_ttl_map:
  "xs \<noteq> [] \<Longrightarrow> (\<And>x. getitem_str (g x) ''ttl'' = Inr t) \<Longrightarrow> first_ttl (map g xs) = Inr t"
  by (cases xs) (auto simp: first_ttl_def)

lemma decode_encode_Value:
  assumes "r_payload record = Value v" and "r_type record = ''CNAME'' \<or> r_type record = ''ALIAS''"
  shows "decode_encode record =
     Inr [(''ttl'', JInt (max MIN_TTL (r_ttl record))), (''type'', JStr (r_type record)),
          (''value'', JStr (v @ ''.''))]"
  using assms
  by (auto simp: decode_encode_def gen_contents_def contents_for_def data_for_def
      data_for_CNAME_def dict_update_def Let_def)

lemma decode_encode_multiple:
  assumes "r_payload record = Values vs" and "vs \<noteq> []"
     and "r_type record = ''A'' \<or> r_type record = ''AAAA'' \<or> r_type record = ''SPF''"
  shows "decode_encode record =
     Inr [(''ttl'', JInt (max MIN_TTL (r_ttl record))), (''type'', JStr (r_type record)),
          (''values'', JList (map JStr vs))]"
proof -
  let ?g = "\<lambda>v. JDict (dict_update [(''content'', JStr v)]
       [(''name'', JStr (butlast (r_fqdn record))), (''type'', JStr (r_type record)),
        (''ttl'', JInt (max MIN_TTL (r_ttl record)))])"
  have enc: "gen_contents record = Inr (map (\<lambda>v. dict_update [(''content'', JStr v)]
       [(''name'', JStr (butlast (r_fqdn record))), (''type'', JStr (r_type record)),
        (''ttl'', JInt (max MIN_TTL (r_ttl record)))]) vs)"
    using assms by (auto simp: gen_contents_def contents_for_def Let_def comp_def)
  have ttl: "first_ttl (map ?g vs) = Inr (JInt (max MIN_TTL (r_ttl record)))"
    using assms(2) by (intro first_ttl_map) (simp_all add: dict_update_def)
  have vals: "map_err (\<lambda>r. getitem_str r ''content'') (map ?g vs) = Inr (map JStr vs)"
    by (intro map_err_map) (simp add: dict_update_def)
  show ?thesis
    using assms(3) ttl vals
    by (auto simp: decode_encode_def enc data_for_def data_for_multiple_def comp_def)
qed

lemma decode_encode_NS:
  assumes "r_payload record = Values vs" and "vs \<noteq> []" and "r_type record = ''NS''"
  shows "decode_encode record =
     Inr [(''ttl'', JInt (max MIN_TTL (r_ttl record))), (''type'', JStr (r_type record)),
          (''values'', JList (map (\<lambda>v. JStr (v @ ''.'')) vs))]"
proof -
  let ?g = "\<lambda>v. JDict (dict_update [(''content'', JStr v)]
       [(''name'', JStr (butlast (r_fqdn record))), (''type'', JStr ''NS''),
        (''ttl'', JInt (max MIN_TTL (r_ttl record)))])"
  have enc: "gen_contents record = Inr (map (\<lambda>v. dict_update [(''content'', JStr v)]
       [(''name'', JStr (butlast (r_fqdn record))), (''type'', JStr ''NS''),
        (''ttl'', JInt (max MIN_TTL (r_ttl record)))]) vs)"
    using assms by (simp add: gen_contents_def contents_for_def Let_def comp_def)
  have ttl: "first_ttl (map ?g vs) = Inr (JInt (max MIN_TTL (r_ttl record)))"
    using assms(2) by (intro first_ttl_map) (simp_all add: dict_update_def)
  have vals: "map_err ns_content (map ?g vs) = Inr (map (\<lambda>v. JStr (v @ ''.'')) vs)"
    by (intro map_err_map) (simp add: dict_update_def ns_content_def)
  show ?thesis
    using assms(3) ttl vals
    by (simp add: decode_encode_def enc data_for_def data_for_NS_def comp_def)
qed

lemma decode_encode_TXT:
  assumes "r_payload record = Values vs" and "vs \<noteq> []" and "r_type record = ''TXT''"
    and "list_all semicolons_escaped vs"
  shows "decode_encode record =
     Inr [(''ttl'', JInt (max MIN_TTL (r_ttl record))), (''type'', JStr (r_type record)),
          (''values'', JList (map JStr vs))]"
proof -
  let ?g = "\<lambda>v. JDict (dict_update [(''content'', JStr (str_replace escaped_semicolon '';'' v))]
       [(''name'', JStr (butlast (r_fqdn record))), (''type'', JStr ''TXT''),
        (''ttl'', JInt (max MIN_TTL (r_ttl record)))])"
  have enc: "gen_contents record =
      Inr (map (\<lambda>v. dict_update [(''content'', JStr (str_replace escaped_semicolon '';'' v))]
       [(''name'', JStr (butlast (r_fqdn record))), (''type'', JStr ''TXT''),
        (''ttl'', JInt (max MIN_TTL (r_ttl record)))]) vs)"
    using assms by (simp add: gen_contents_def contents_for_def Let_def comp_def)
  have ttl: "first_ttl (map ?g vs) = Inr (JInt (max MIN_TTL (r_ttl record)))"
    using assms(2) by (intro first_ttl_map) (simp_all add: dict_update_def)
  have vals: "map_err txt_content (map ?g vs) = Inr (map JStr vs)"
    using assms(4)
    by (intro map_err_map) (simp add: dict_update_def txt_content_def escape_unescape list_all_iff)
  show ?thesis
    using assms(3) ttl vals
    by (simp add: decode_encode_def enc data_for_def data_for_TXT_def comp_def)
qed

lemma decode_encode_CAA:
  assumes "r_payload record = CAAValues vs" and "vs \<noteq> []" and "r_type record = ''CAA''"
  shows "decode_encode record =
     Inr [(''ttl'', JInt (max MIN_TTL (r_ttl record))), (''type'', JStr (r_type record)),
          payload_data (CAAValues vs)]"
proof -
  let ?d = "\<lambda>v. JDict [(''flags'', JInt (caa_flags v)), (''tag'', JStr (caa_tag v)),
                         (''value'', JStr (caa_value v))]"
  let ?g = "\<lambda>v. JDict (dict_update [(''data'', ?d v)]
       [(''name'', JStr (butlast (r_fqdn record))), (''type'', JStr ''CAA''),
        (''ttl'', JInt (max MIN_TTL (r_ttl record)))])"
  have enc: "gen_contents record = Inr (map (\<lambda>v. dict_update [(''data'', ?d v)]
       [(''name'', JStr (butlast (r_fqdn record))), (''type'', JStr ''CAA''),
        (''ttl'', JInt (max MIN_TTL (r_ttl record)))]) vs)"
    using assms by (simp add: gen_contents_def contents_for_def Let_def comp_def)
  have ttl: "first_ttl (map ?g vs) = Inr (JInt (max MIN_TTL (r_ttl record)))"
    using assms(2) by (intro first_ttl_map) (simp_all add: dict_update_def)
  have vals: "map_err (\<lambda>r. getitem_str r ''data'') (map ?g vs) = Inr (map ?d vs)"
    by (intro map_err_map) (simp add: dict_update_def)
  show ?thesis
    using assms(3) ttl vals
    by (simp add: decode_encode_def enc data_for_def data_for_CAA_def comp_def)
qed

lemma decode_encode_MX:
  assumes "r_payload record = MXValues vs" and "vs \<noteq> []" and "r_type record = ''MX''"
  shows "decode_encode record =
     Inr [(''ttl'', JInt (max MIN_TTL (r_ttl record))), (''type'', JStr (r_type record)),
          payload_data (dotted ''MX'' (MXValues vs))]"
proof -
  let ?g = "\<lambda>v. JDict (dict_update [(''priority'', JInt (mx_preference v)),
                                       (''content'', JStr (mx_exchange v))]
       [(''name'', JStr (butlast (r_fqdn record))), (''type'', JStr ''MX''),
        (''ttl'', JInt (max MIN_TTL (r_ttl record)))])"
  have enc: "gen_contents record =
      Inr (map (\<lambda>v. dict_update [(''priority'', JInt (mx_preference v)),
                                   (''content'', JStr (mx_exchange v))]
       [(''name'', JStr (butlast (r_fqdn record))), (''type'', JStr ''MX''),
        (''ttl'', JInt (max MIN_TTL (r_ttl record)))]) vs)"
    using assms by (simp add: gen_contents_def contents_for_def Let_def comp_def)
  have ttl: "first_ttl (map ?g vs) = Inr (JInt (max MIN_TTL (r_ttl record)))"
    using assms(2) by (intro first_ttl_map) (simp_all add: dict_update_def)
  have vals: "map_err mx_data (map ?g vs) =
      Inr (map (\<lambda>v. JDict [(''preference'', JInt (mx_preference v)),
                             (''exchange'', JStr (mx_exchange v @ ''.''))]) vs)"
    by (intro map_err_map) (simp add: dict_update_def mx_data_def)
  show ?thesis
    using assms(3) ttl vals
    by (simp add: decode_encode_def enc data_for_def data_for_MX_def comp_def)
qed

text \<open>
  C3 (as amended). For every canonical record, decoding the fragments the encoder produces
  succeeds and gives the record's type, the TTL raised to the provider's minimum, and the
  record's values in their order: unchanged for A, AAAA, SPF and CAA and for TXT values whose
  semicolons are escaped, and with one more dot at the end of every target for CNAME, ALIAS,
  NS and MX, where the decoder appends a dot that the encoder does not remove.
\<close>

theorem decode_encode_canonical:
  assumes "canonical (r_type record) (r_payload record)"
  shows "decode_encode record =
           Inr [(''ttl'', JInt (max MIN_TTL (r_ttl record))),
                (''type'', JStr (r_type record)),
                payload_data (dotted (r_type record) (r_payload record))]"
proof (cases "r_payload record")
  case (Value v)
  then show ?thesis using assms decode_encode_Value [of "record" v] by simp
next
  case (Values vs)
  then have ne: "vs \<noteq> []" using assms by simp
  consider "r_type record = ''A'' \<or> r_type record = ''AAAA'' \<or> r_type record = ''SPF''"
    | "r_type record = ''NS''"
    | "r_type record = ''TXT''" "list_all semicolons_escaped vs"
    using assms Values by auto
  then show ?thesis
  proof cases
    case 1
    then show ?thesis using decode_encode_multiple [OF Values ne] Values by auto
  next
    case 2
    then show ?thesis using decode_encode_NS [OF Values ne] Values by (simp add: comp_def)
  next
    case 3
    then show ?thesis using decode_encode_TXT [OF Values ne] Values by simp
  qed
next
  case (CAAValues vs)
  then show ?thesis using assms decode_encode_CAA [of "record" vs] by simp
next
  case (MXValues vs)
  then show ?thesis using assms decode_encode_MX [of "record" vs] by simp
qed

theorem decode_encode_canonical_witness:
  "canonical ''TXT'' (Values [''v=spf1 a'' @ escaped_semicolon @ ''b'']) \<and>
   decode_encode (example_record ''txt'' ''TXT'' 300 (Values [''v=spf1 a'' @ escaped_semicolon @ ''b''])) =
     Inr [(''ttl'', JInt 300), (''type'', JStr ''TXT''),
          (''values'', JList [JStr (''v=spf1 a'' @ escaped_semicolon @ ''b'')])]"
  using decode_encode_canonical
    [of "example_record ''txt'' ''TXT'' 300 (Values [''v=spf1 a'' @ escaped_semicolon @ ''b''])"]
  by (simp add: example_record_def escaped_semicolon_def MIN_TTL_def)

text \<open>
  The claim as stated fails for a CNAME: the target \<open>new.\<close> comes back as \<open>new..\<close>.
\<close>

theorem decode_encode_CNAME_counterexample:
  "canonical ''CNAME'' (Value ''new.'') \<and>
   decode_encode (example_record ''a'' ''CNAME'' 300 (Value ''new.'')) =
     Inr [(''ttl'', JInt 300), (''type'', JStr ''CNAME''), (''value'', JStr ''new..'')] \<and>
   (''value'', JStr ''new..'') \<noteq> payload_data (Value ''new.'')"
  by (simp add: example_record_def decode_encode_def gen_contents_def contents_for_def
      data_for_def data_for_CNAME_def dict_update_def MIN_TTL_def Let_def)

lemma data_for_unsupported: "type \<notin> SUPPORTS \<Longrightarrow> data_for type records = Inl AttributeError"
  by (simp add: SUPPORTS_def data_for_def)

section \<open>ALIAS and CNAME\<close>


lemma map_of_dict_set:
  "map_of (dict_set k v d) k' = (if k' = k then Some v else map_of d k')"
  by (induction d) auto

lemma gen_contents_type:
  assumes "gen_contents record = Inr contents" and "c \<in> set contents"
  shows "map_of c ''type'' =
           Some (JStr (if r_type record = ''ALIAS'' then ''CNAME'' else r_type record))"
  using assms
  by (auto simp: gen_contents_def Let_def dict_update_def map_of_dict_set split: sum.splits)

text \<open>
  C6. The records that \<open>populate\<close> groups under the empty relative name and the wire type
  CNAME are decoded as type ALIAS: whenever the decoding yields data its type is ALIAS, and it
  does yield data when the first record of the group has a TTL and a string content. Every
  fragment that encoding an ALIAS record produces has the wire type CNAME, and an ALIAS record
  with its single target encodes to exactly one such fragment.
\<close>

theorem root_CNAME_is_ALIAS:
  "(\<forall>d. populate_data '''' ''CNAME'' records = Inr d \<longrightarrow>
        map_of d ''type'' = Some (JStr ''ALIAS'')) \<and>
   (\<forall>w ws ttl content. records = JDict w # ws \<longrightarrow> map_of w ''ttl'' = Some ttl \<longrightarrow>
        map_of w ''content'' = Some (JStr content) \<longrightarrow>
        populate_data '''' ''CNAME'' records =
          Inr [(''ttl'', ttl), (''type'', JStr ''ALIAS''), (''value'', JStr (content @ ''.''))]) \<and>
   (\<forall>contents. r_type record = ''ALIAS'' \<longrightarrow> gen_contents record = Inr contents \<longrightarrow>
        (\<forall>c \<in> set contents. map_of c ''type'' = Some (JStr ''CNAME''))) \<and>
   (\<forall>v. r_type record = ''ALIAS'' \<longrightarrow> r_payload record = Value v \<longrightarrow>
        gen_contents record =
          Inr [[(''content'', JStr v), (''name'', JStr (butlast (r_fqdn record))),
                (''type'', JStr ''CNAME''), (''ttl'', JInt (max MIN_TTL (r_ttl record)))]])"
proof (intro conjI allI impI)
  fix d assume "populate_data '''' ''CNAME'' records = Inr d"
  then show "map_of d ''type'' = Some (JStr ''ALIAS'')"
    by (auto simp: populate_data_def data_for_def data_for_CNAME_def
        split: list.splits sum.splits)
next
  fix w ws ttl content
  assume "records = JDict w # ws" "map_of w ''ttl'' = Some ttl"
    "map_of w ''content'' = Some (JStr content)"
  then show "populate_data '''' ''CNAME'' records =
      Inr [(''ttl'', ttl), (''type'', JStr ''ALIAS''), (''value'', JStr (content @ ''.''))]"
    by (simp add: populate_data_def data_for_def data_for_CNAME_def)
next
  fix contents
  assume "r_type record = ''ALIAS''" "gen_contents record = Inr contents"
  then show "\<forall>c \<in> set contents. map_of c ''type'' = Some (JStr ''CNAME'')"
    using gen_contents_type [of "record" contents] by simp
next
  fix v assume "r_type record = ''ALIAS''" "r_payload record = Value v"
  then show "gen_contents record =
          Inr [[(''content'', JStr v), (''name'', JStr (butlast (r_fqdn record))),
                (''type'', JStr ''CNAME''), (''ttl'', JInt (max MIN_TTL (r_ttl record)))]]"
    by (simp add: gen_contents_def contents_for_def dict_update_def Let_def)
qed

theorem root_CNAME_is_ALIAS_witness:
  "populate_data '''' ''CNAME''
     [JDict [(''id'', JStr ''r1''), (''name'', JStr ''unit.tests''), (''type'', JStr ''CNAME''),
             (''ttl'', JInt 300), (''content'', JStr ''www.unit.tests'')]] =
     Inr [(''ttl'', JInt 300), (''type'', JStr ''ALIAS''), (''value'', JStr ''www.unit.tests.'')] \<and>
   gen_contents (example_record '''' ''ALIAS'' 300 (Value ''www.unit.tests.'')) =
     Inr [[(''content'', JStr ''www.unit.tests.''), (''name'', JStr ''unit.tests''),
           (''type'', JStr ''CNAME''), (''ttl'', JInt 300)]]"
  using root_CNAME_is_ALIAS
    [of "[JDict [(''id'', JStr ''r1''), (''name'', JStr ''unit.tests''), (''type'', JStr ''CNAME''),
             (''ttl'', JInt 300), (''content'', JStr ''www.unit.tests'')]]"
        "example_record '''' ''ALIAS'' 300 (Value ''www.unit.tests.'')"]
  by (simp add: example_record_def MIN_TTL_def)

section \<open>The TTL floor in the change filter\<close>

lemma keys_dict_set: "set (map fst (dict_set k v d)) = insert k (set (map fst d))"
  by (induction d) auto

lemma dict_eq_iff:
  "dict_eq a b \<longleftrightarrow>
     dom (map_of a) = dom (map_of b) \<and>
     (\<forall>k. map_option sort_keys (map_of a k) = map_option sort_keys (map_of b k))"
proof -
  have "(\<forall>k \<in> dom (map_of a). map_option sort_keys (map_of a k) = map_option sort_keys (map_of b k))
      \<longleftrightarrow> (\<forall>k. map_option sort_keys (map_of a k) = map_option sort_keys (map_of b k))"
    if "dom (map_of a) = dom (map_of b)"
    using that by (metis domIff option.map_disc_iff)
  then show ?thesis
    unfolding dict_eq_def list_all_iff dom_map_of_conv_image_fst [symmetric] set_map
    by blast
qed

lemma include_change_Update:
  assumes "\<not> (r_type new = ''NS'' \<and> r_name new = [])"
    and "map_of (r_data new) ''ttl'' = Some ttl"
  shows "include_change (Update existing new) =
     (Inr (\<not> dict_eq (dict_set ''ttl'' (max_120 ttl) (r_data new)) (r_data existing)),
      Update existing new)"
  using assms by (auto simp: include_change_def clamp_ttl_def base_include_change_def)

lemma include_change_root_NS:
  assumes "r_type (change_record c) = ''NS''" and "r_name (change_record c) = []"
  shows "include_change c = (Inr False, c)"
  using assms by (simp add: include_change_def)

text \<open>
  C5 (as amended). An \<open>Update\<close> whose new data has TTL 60 and otherwise the fields of the
  existing data is rejected when the existing TTL is 120. When the existing TTL is 90 it is
  accepted, unless it is about an NS record at the root of the zone, which the filter
  rejects whatever its content.
\<close>

theorem include_change_ttl_floor:
  assumes "map_of (r_data new) ''ttl'' = Some (JInt 60)"
    and "map_of (r_data existing) ''ttl'' = Some (JInt ttl)"
    and "\<forall>k. k \<noteq> ''ttl'' \<longrightarrow> map_of (r_data existing) k = map_of (r_data new) k"
  shows "(ttl = 120 \<longrightarrow> fst (include_change (Update existing new)) = Inr False) \<and>
         (ttl = 90 \<longrightarrow> fst (include_change (Update existing new)) =
                          Inr (\<not> (r_type new = ''NS'' \<and> r_name new = [])))"
proof (cases "r_type new = ''NS'' \<and> r_name new = []")
  case True
  then show ?thesis by (simp add: include_change_root_NS)
next
  case False
  let ?d = "dict_set ''ttl'' (max_120 (JInt 60)) (r_data new)"
  have same: "map_of ?d k = (if k = ''ttl'' then Some (JInt 120) else map_of (r_data existing) k)" for k
    using assms(3) by (simp add: map_of_dict_set)
  have "dict_eq ?d (r_data existing)" if "ttl = 120"
  proof -
    have "map_of ?d = map_of (r_data existing)"
      using same assms(2) that by auto
    then show ?thesis by (simp add: dict_eq_iff)
  qed
  moreover have "\<not> dict_eq ?d (r_data existing)" if "ttl = 90"
  proof
    assume "dict_eq ?d (r_data existing)"
    then have "map_option sort_keys (map_of ?d ''ttl'') =
               map_option sort_keys (map_of (r_data existing) ''ttl'')"
      by (simp add: dict_eq_iff)
    then show False using same [of "''ttl''"] assms(2) that by simp
  qed
  ultimately show ?thesis
    using include_change_Update [OF False assms(1), of existing] False by auto
qed

theorem include_change_ttl_floor_witness:
  "fst (include_change (Update (example_record ''a'' ''A'' 120 (Values [''1.2.3.4'']))
                               (example_record ''a'' ''A'' 60 (Values [''1.2.3.4''])))) = Inr False \<and>
   fst (include_change (Update (example_record ''a'' ''A'' 90 (Values [''1.2.3.4'']))
                               (example_record ''a'' ''A'' 60 (Values [''1.2.3.4''])))) = Inr True"
  using include_change_ttl_floor [of "example_record ''a'' ''A'' 60 (Values [''1.2.3.4''])"
      "example_record ''a'' ''A'' 120 (Values [''1.2.3.4''])" 120]
    include_change_ttl_floor [of "example_record ''a'' ''A'' 60 (Values [''1.2.3.4''])"
      "example_record ''a'' ''A'' 90 (Values [''1.2.3.4''])" 90]
  by (simp add: example_record_def)

text \<open>
  The claim as stated fails for the NS record at the root of a zone: with the existing TTL 90
  the change is rejected, not accepted.
\<close>

theorem include_change_root_NS_counterexample:
  "fst (include_change (Update (example_record [] ''NS'' 90 (Values [''ns1.example.'']))
                               (example_record [] ''NS'' 60 (Values [''ns1.example.''])))) = Inr False"
  by (simp add: include_change_def example_record_def)

lemma gen_contents_ttl:
  assumes "gen_contents record = Inr fragments" and "c \<in> set fragments"
  shows "map_of c ''ttl'' = Some (JInt (max MIN_TTL (r_ttl record)))"
  using assms
  by (auto simp: gen_contents_def Let_def dict_update_def map_of_dict_set split: sum.splits)

text \<open>
  C10 (as amended). For an \<open>Update\<close> that is not about a root NS record and whose new record
  has a TTL below 120, shown by its data, the filter clamps the TTL to 120 in the dict it took
  from the new record, and rejects the change exactly when that dict equals the existing
  data. The change itself is left as it came, rejected or accepted: the new record and its
  data keep the TTL the caller supplied. The TTL is clamped on the wire all the same, since
  every fragment that \<open>_gen_contents\<close> makes of the new record has the TTL 120.
\<close>

theorem include_change_clamps_its_copy:
  assumes "map_of (r_data new) ''ttl'' = Some (JInt (r_ttl new))"
    and "r_ttl new < 120"
    and "\<not> (r_type new = ''NS'' \<and> r_name new = [])"
  shows "clamp_ttl (r_data new) = Inr (dict_set ''ttl'' (JInt 120) (r_data new)) \<and>
         map_of (dict_set ''ttl'' (JInt 120) (r_data new)) ''ttl'' = Some (JInt 120) \<and>
         include_change (Update existing new) =
           (Inr (\<not> dict_eq (dict_set ''ttl'' (JInt 120) (r_data new)) (r_data existing)),
            Update existing new) \<and>
         (\<forall>fragments. gen_contents new = Inr fragments \<longrightarrow>
            (\<forall>c \<in> set fragments. map_of c ''ttl'' = Some (JInt 120)))"
proof (intro conjI allI impI ballI)
  show "clamp_ttl (r_data new) = Inr (dict_set ''ttl'' (JInt 120) (r_data new))"
    using assms(1,2) by (simp add: clamp_ttl_def max_def)
  show "map_of (dict_set ''ttl'' (JInt 120) (r_data new)) ''ttl'' = Some (JInt 120)"
    by (simp add: map_of_dict_set)
  show "include_change (Update existing new) =
          (Inr (\<not> dict_eq (dict_set ''ttl'' (JInt 120) (r_data new)) (r_data existing)),
           Update existing new)"
    using include_change_Update [OF assms(3) assms(1), of existing] assms(2)
    by (simp add: max_def)
next
  fix fragments c
  assume "gen_contents new = Inr fragments" "c \<in> set fragments"
  then show "map_of c ''ttl'' = Some (JInt 120)"
    using gen_contents_ttl [of new fragments c] assms(2) by (simp add: MIN_TTL_def max_def)
qed

theorem include_change_clamps_its_copy_witness:
  "include_change (Update (example_record ''a'' ''A'' 120 (Values [''1.2.3.4'']))
                          (example_record ''a'' ''A'' 60 (Values [''1.2.3.4'']))) =
     (Inr False,
      Update (example_record ''a'' ''A'' 120 (Values [''1.2.3.4'']))
             (example_record ''a'' ''A'' 60 (Values [''1.2.3.4'']))) \<and>
   clamp_ttl (r_data (example_record ''a'' ''A'' 60 (Values [''1.2.3.4'']))) =
     Inr [(''ttl'', JInt 120), (''type'', JStr ''A''), (''values'', JList [JStr ''1.2.3.4''])] \<and>
   gen_contents (example_record ''a'' ''A'' 60 (Values [''1.2.3.4''])) =
     Inr [[(''content'', JStr ''1.2.3.4''), (''name'', JStr ''a.unit.tests''),
           (''type'', JStr ''A''), (''ttl'', JInt 120)]]"
proof -
  have b: "dict_eq [(''ttl'', JInt 120), (''type'', JStr ''A''), (''values'', JList [JStr ''1.2.3.4''])]
             [(''ttl'', JInt 120), (''type'', JStr ''A''), (''values'', JList [JStr ''1.2.3.4''])]"
    by (simp add: dict_eq_def)
  have g: "gen_contents (example_record ''a'' ''A'' 60 (Values [''1.2.3.4''])) =
     Inr [[(''content'', JStr ''1.2.3.4''), (''name'', JStr ''a.unit.tests''),
           (''type'', JStr ''A''), (''ttl'', JInt 120)]]"
    by code_simp
  show ?thesis
    using include_change_clamps_its_copy [of "example_record ''a'' ''A'' 60 (Values [''1.2.3.4''])"
      "example_record ''a'' ''A'' 120 (Values [''1.2.3.4''])"] b g
    by (simp add: example_record_def)
qed

text \<open>
  The claim as stated fails: the change that the filter accepts goes on with the TTL 60 that
  the caller supplied. Nothing was assigned to the new record, whose data still shows 60.
\<close>

theorem include_change_keeps_supplied_ttl_counterexample:
  "include_change (Update (example_record ''a'' ''A'' 90 (Values [''1.2.3.4'']))
                          (example_record ''a'' ''A'' 60 (Values [''1.2.3.4'']))) =
     (Inr True,
      Update (example_record ''a'' ''A'' 90 (Values [''1.2.3.4'']))
             (example_record ''a'' ''A'' 60 (Values [''1.2.3.4'']))) \<and>
   map_of (r_data (example_record ''a'' ''A'' 60 (Values [''1.2.3.4'']))) ''ttl'' = Some (JInt 60) \<and>
   r_ttl (example_record ''a'' ''A'' 60 (Values [''1.2.3.4''])) = 60"
  by (simp add: include_change_def clamp_ttl_def dict_eq_def base_include_change_def
      example_record_def)

section \<open>How a change is applied\<close>

lemma request_frame:
  assumes "request self m p ps d = (r, self')"
  shows "sess self' = sess self" and "zones_cache self' = zones_cache self"
    and "zone_records_cache self' = zone_records_cache self"
  using request_sess [of self m p ps d] request_zones_cache [of self m p ps d]
    request_zone_records_cache [of self m p ps d] assms by simp_all

lemma list_pages_frame:
  assumes "list_pages fuel self p page acc = (r, self')"
  shows "sess self' = sess self \<and> zones_cache self' = zones_cache self \<and>
         zone_records_cache self' = zone_records_cache self"
  using assms
proof (induction fuel arbitrary: self page acc)
  case 0
  then show ?case by simp
next
  case (Suc fuel)
  obtain r1 self1 where rq: "request self ''GET'' p (Some page) None = (r1, self1)"
    by (cases "request self ''GET'' p (Some page) None")
  note fr = request_frame [OF rq]
  show ?case
    using Suc.prems Suc.IH [of self1] fr
    by (auto simp: rq split: sum.splits if_splits)
qed

lemma zones_frame:
  assumes "zones fuel self = (r, self')"
  shows "sess self' = sess self" and "zone_records_cache self' = zone_records_cache self"
  using assms
  by (auto simp: zones_def split: option.splits prod.splits sum.splits dest: list_pages_frame)

lemma zones_cached:
  "zones fuel self = (Inr zs, self') \<Longrightarrow> zones_cache self' = Some zs"
  by (auto simp: zones_def split: option.splits prod.splits sum.splits)

lemma zone_records_frame:
  assumes "zone_records fuel self name = (r, self')"
  shows "sess self' = sess self"
    and "z \<noteq> name \<Longrightarrow> zone_records_cache self' z = zone_records_cache self z"
proof -
  obtain r1 self1 where z: "zones fuel self = (r1, self1)" by (cases "zones fuel self")
  note f1 = zones_frame [OF z]
  show "sess self' = sess self"
    using assms f1
    by (auto simp: zone_records_def z Let_def split: option.splits prod.splits sum.splits if_splits
        dest: list_pages_frame)
  show "zone_records_cache self' z = zone_records_cache self z" if "z \<noteq> name"
    using assms f1 that
    by (auto simp: zone_records_def z Let_def split: option.splits prod.splits sum.splits if_splits
        dest: list_pages_frame)
qed

lemma mutations_accepted_sent [simp]:
  "mutations_accepted (self\<lparr>sent := s\<rparr>) = mutations_accepted self"
  by (simp add: mutations_accepted_def)

lemma request_accepted:
  assumes "mutations_accepted self" and "m \<noteq> ''GET''"
  shows "\<exists>j. request self m p ps d =
           (Inr j, self\<lparr>sent := sent self @
              [\<lparr>rq_method = m, rq_path = p, rq_params = ps, rq_data = d\<rparr>]\<rparr>)"
proof -
  let ?rq = "\<lparr>rq_method = m, rq_path = p, rq_params = ps, rq_data = d\<rparr>"
  have "accepted (sess self (sent self) ?rq)"
    using assms by (simp add: mutations_accepted_def)
  then show ?thesis
    by (auto simp: request_def Let_def accepted_def)
qed

lemma create_all_accepted:
  assumes "mutations_accepted self"
  shows "create_all self p contents =
           (Inr (), self\<lparr>sent := sent self @ map (post_request p) contents\<rparr>)"
  using assms
proof (induction contents arbitrary: self)
  case Nil
  then show ?case by simp
next
  case (Cons c contents)
  obtain j where rq: "request self ''POST'' p None (Some (JDict c)) =
      (Inr j, self\<lparr>sent := sent self @ [post_request p c]\<rparr>)"
    using request_accepted [OF Cons.prems, of "''POST''" p None "Some (JDict c)"]
    by (auto simp: post_request_def)
  show ?case
    using Cons.IH [of "self\<lparr>sent := sent self @ [post_request p c]\<rparr>"] Cons.prems
    by (simp add: rq)
qed

lemma swap_or_remove_accepted:
  assumes "mutations_accepted self"
    and "records_readable H keys new_contents name type records"
  shows "swap_or_remove H keys new_contents name type self records adds =
           (Inr (drop (length (unwanted_paths H keys new_contents name type records)) adds),
            self\<lparr>sent := sent self @
               map (\<lambda>pc. put_request (fst pc) (snd pc))
                 (zip (unwanted_paths H keys new_contents name type records) adds) @
               map delete_request
                 (drop (length adds) (unwanted_paths H keys new_contents name type records))\<rparr>)"
  using assms
proof (induction records arbitrary: self adds)
  case Nil
  then show ?case by (simp add: unwanted_paths_def map_filter_simps)
next
  case (Cons r records)
  have rest: "records_readable H keys new_contents name type records"
    using Cons.prems(2) by (simp add: records_readable_def)
  obtain u where u: "unwanted H keys new_contents name type r = Inr u"
    using Cons.prems(2) by (auto simp: records_readable_def split: sum.splits)
  show ?case
  proof (cases u)
    case None
    then show ?thesis
      using Cons.IH [OF Cons.prems(1) rest, of adds] u
      by (simp add: unwanted_paths_def map_filter_simps)
  next
    case (Some p)
    have paths: "unwanted_paths H keys new_contents name type (r # records) =
        p # unwanted_paths H keys new_contents name type records"
      using u Some by (simp add: unwanted_paths_def map_filter_simps)
    show ?thesis
    proof (cases adds)
      case Nil
      obtain j where rq: "request self ''DELETE'' p None None =
          (Inr j, self\<lparr>sent := sent self @ [delete_request p]\<rparr>)"
        using request_accepted [OF Cons.prems(1), of "''DELETE''" p None None]
        by (auto simp: delete_request_def)
      show ?thesis
        using Cons.IH [OF _ rest, of "self\<lparr>sent := sent self @ [delete_request p]\<rparr>" "[]"]
          Cons.prems(1) u Some Nil
        by (simp add: paths rq)
    next
      case (Cons a adds')
      obtain j where rq: "request self ''PUT'' p None (Some (JDict a)) =
          (Inr j, self\<lparr>sent := sent self @ [put_request p a]\<rparr>)"
        using request_accepted [OF Cons.prems(1), of "''PUT''" p None "Some (JDict a)"]
        by (auto simp: put_request_def)
      show ?thesis
        using Cons.IH [OF _ rest, of "self\<lparr>sent := sent self @ [put_request p a]\<rparr>" adds']
          Cons.prems(1) u Some Cons
        by (simp add: paths rq)
    qed
  qed
qed

lemma keys_dict_pop_other:
  "k' \<noteq> k \<Longrightarrow> k' \<in> set (map fst (dict_pop k d)) \<longleftrightarrow> k' \<in> set (map fst d)"
  by (induction d) auto

lemma find_adds_filter:
  assumes "distinct (map fst new_items)"
  shows "snd (find_adds new_items existing_contents adds) =
           adds @ map snd (filter (\<lambda>kc. fst kc \<notin> set (map fst existing_contents)) new_items)"
  using assms
proof (induction new_items arbitrary: existing_contents adds)
  case Nil
  then show ?case by simp
next
  case (Cons kc new_items)
  have other: "fst x \<noteq> fst kc" if "x \<in> set new_items" for x
  proof
    assume "fst x = fst kc"
    then have "fst kc \<in> fst ` set new_items" using that by (metis imageI)
    then show False using Cons.prems by simp
  qed
  have dist: "distinct (map fst new_items)" using Cons.prems by simp
  show ?case
  proof (cases "fst kc \<in> set (map fst existing_contents)")
    case True
    have same: "(fst x \<notin> set (map fst (dict_pop (fst kc) existing_contents))) =
                (fst x \<notin> set (map fst existing_contents))" if "x \<in> set new_items" for x
      using keys_dict_pop_other [OF other [OF that], of existing_contents] by blast
    have eq: "filter (\<lambda>x. fst x \<notin> set (map fst (dict_pop (fst kc) existing_contents))) new_items =
          filter (\<lambda>x. fst x \<notin> set (map fst existing_contents)) new_items"
      by (rule filter_cong [OF refl]) (rule same)
    have "snd (find_adds (kc # new_items) existing_contents adds) =
          snd (find_adds new_items (dict_pop (fst kc) existing_contents) adds)"
      using True by (simp del: set_map)
    also have "\<dots> = adds @ map snd
        (filter (\<lambda>x. fst x \<notin> set (map fst (dict_pop (fst kc) existing_contents))) new_items)"
      by (rule Cons.IH [OF dist])
    also have "\<dots> = adds @ map snd
        (filter (\<lambda>x. fst x \<notin> set (map fst existing_contents)) (kc # new_items))"
      unfolding eq using True by (simp del: set_map)
    finally show ?thesis .
  next
    case False
    have "snd (find_adds (kc # new_items) existing_contents adds) =
          snd (find_adds new_items existing_contents (adds @ [snd kc]))"
      using False by (simp del: set_map)
    also have "\<dots> = (adds @ [snd kc]) @ map snd
        (filter (\<lambda>x. fst x \<notin> set (map fst existing_contents)) new_items)"
      by (rule Cons.IH [OF dist])
    also have "\<dots> = adds @ map snd
        (filter (\<lambda>x. fst x \<notin> set (map fst existing_contents)) (kc # new_items))"
      using False by (simp del: set_map)
    finally show ?thesis .
  qed
qed

lemma keys_dict_set_image: "fst ` set (dict_set k v d) = insert k (fst ` set d)"
  by (induction d) auto

lemma dict_set_distinct:
  "distinct (map fst d) \<Longrightarrow> distinct (map fst (dict_set k v d))"
  by (induction d) (auto simp: keys_dict_set_image)

lemma fold_dict_set_distinct:
  "distinct (map fst d) \<Longrightarrow>
   distinct (map fst (fold (\<lambda>c d. dict_set (hash_content H c) c d) contents d))"
  by (induction contents arbitrary: d) (auto simp: dict_set_distinct)

lemma contents_dict_distinct: "distinct (map fst (contents_dict H contents))"
  using fold_dict_set_distinct [of "[]" H contents] by (simp add: contents_dict_def)

lemma contents_to_add_eq:
  "snd (find_adds (contents_dict H new_fragments) (contents_dict H existing_fragments) []) =
     contents_to_add H existing_fragments new_fragments"
  by (simp add: find_adds_filter contents_dict_distinct contents_to_add_def)

lemma dict_set_values:
  "set (map snd (dict_set k v d)) \<subseteq> insert v (set (map snd d))"
  by (induction d) auto

lemma dict_set_not_Nil [simp]: "dict_set k v d \<noteq> []"
  by (cases d) auto

lemma fold_dict_set_values:
  "set (map snd (fold (\<lambda>c d. dict_set (hash_content H c) c d) contents d)) \<subseteq>
     set contents \<union> set (map snd d)"
proof (induction contents arbitrary: d)
  case Nil
  show ?case by simp
next
  case (Cons c contents)
  show ?case
    using Cons.IH [of "dict_set (hash_content H c) c d"] dict_set_values [of "hash_content H c" c d]
    by auto
qed

lemma fold_dict_set_not_Nil:
  "d \<noteq> [] \<Longrightarrow> fold (\<lambda>c d. dict_set (hash_content H c) c d) contents d \<noteq> []"
  by (induction contents arbitrary: d) auto

lemma contents_dict_values: "set (map snd (contents_dict H contents)) \<subseteq> set contents"
  using fold_dict_set_values [of H contents "[]"] by (simp add: contents_dict_def)

lemma contents_dict_not_Nil:
  assumes "contents \<noteq> []"
  shows "contents_dict H contents \<noteq> []"
proof -
  obtain c cs where c: "contents = c # cs" using assms by (cases contents) auto
  show ?thesis
    using fold_dict_set_not_Nil [of "dict_set (hash_content H c) c []" H cs]
    by (simp add: contents_dict_def c)
qed

lemma contents_dict_Nil [simp]: "contents_dict H [] = []"
  by (simp add: contents_dict_def)

lemma contents_for_multiple_keys:
  "contents_for_multiple p = Inr contents \<Longrightarrow> \<forall>c \<in> set contents. map fst c = [''content'']"
  by (cases p) (auto split: if_splits)

lemma contents_for_CAA_keys:
  "contents_for_CAA p = Inr contents \<Longrightarrow> \<forall>c \<in> set contents. map fst c = [''data'']"
  by (cases p) (auto split: if_splits)

lemma contents_for_TXT_keys:
  "contents_for_TXT p = Inr contents \<Longrightarrow> \<forall>c \<in> set contents. map fst c = [''content'']"
  by (cases p) (auto split: if_splits)

lemma contents_for_CNAME_keys:
  "contents_for_CNAME p = Inr contents \<Longrightarrow> \<forall>c \<in> set contents. map fst c = [''content'']"
  by (cases p) auto

lemma contents_for_MX_keys:
  "contents_for_MX p = Inr contents \<Longrightarrow>
   \<forall>c \<in> set contents. map fst c = [''priority'', ''content'']"
  by (cases p) (auto split: if_splits)

lemma if_chain_cases:
  "(if a then x1 else if b then x2 else if c then x3 else if d then x4 else if e then x5 else x6) = y \<Longrightarrow>
   y = x1 \<or> y = x2 \<or> y = x3 \<or> y = x4 \<or> y = x5 \<or> y = x6"
  by (auto split: if_splits)

lemma contents_for_cases:
  assumes "contents_for type p = Inr contents"
  shows "contents_for_multiple p = Inr contents \<or> contents_for_CAA p = Inr contents \<or>
   contents_for_TXT p = Inr contents \<or> contents_for_CNAME p = Inr contents \<or>
   contents_for_MX p = Inr contents"
  using if_chain_cases [OF assms [unfolded contents_for_def]] by auto

lemma contents_for_same_keys:
  assumes "contents_for type p = Inr contents"
  shows "\<exists>ks. \<forall>c \<in> set contents. map fst c = ks"
  using contents_for_cases [OF assms]
proof (elim disjE)
  assume "contents_for_multiple p = Inr contents"
  from contents_for_multiple_keys [OF this] show ?thesis ..
next
  assume "contents_for_CAA p = Inr contents"
  from contents_for_CAA_keys [OF this] show ?thesis ..
next
  assume "contents_for_TXT p = Inr contents"
  from contents_for_TXT_keys [OF this] show ?thesis ..
next
  assume "contents_for_CNAME p = Inr contents"
  from contents_for_CNAME_keys [OF this] show ?thesis ..
next
  assume "contents_for_MX p = Inr contents"
  from contents_for_MX_keys [OF this] show ?thesis ..
qed

lemma keys_dict_update_same:
  "map fst c = map fst c' \<Longrightarrow> map fst (dict_set k v c) = map fst (dict_set k v' c')"
proof (induction c arbitrary: c')
  case Nil
  then show ?case by simp
next
  case (Cons a c)
  then obtain b d where c': "c' = b # d" by (cases c') auto
  then have "fst a = fst b" "map fst c = map fst d" using Cons.prems by simp_all
  then show ?case using Cons.IH [of d] c' by simp
qed

lemma gen_contents_same_keys:
  assumes "gen_contents record = Inr fragments" and "c \<in> set fragments" and "c' \<in> set fragments"
  shows "map fst c = map fst c'"
proof -
  let ?type = "if r_type record = ''ALIAS'' then ''CNAME'' else r_type record"
  obtain contents where cf: "contents_for ?type (r_payload record) = Inr contents"
    and fr: "fragments = map (\<lambda>content. dict_update content
                         [(''name'', JStr (butlast (r_fqdn record))), (''type'', JStr ?type),
                          (''ttl'', JInt (max MIN_TTL (r_ttl record)))]) contents"
    using assms(1) by (auto simp: gen_contents_def Let_def split: sum.splits)
  obtain ks where ks: "\<forall>c \<in> set contents. map fst c = ks"
    using contents_for_same_keys [OF cf] by blast
  obtain a a' where "a \<in> set contents" "a' \<in> set contents"
    and c: "c = dict_update a [(''name'', JStr (butlast (r_fqdn record))), (''type'', JStr ?type),
                          (''ttl'', JInt (max MIN_TTL (r_ttl record)))]"
    and c': "c' = dict_update a' [(''name'', JStr (butlast (r_fqdn record))), (''type'', JStr ?type),
                          (''ttl'', JInt (max MIN_TTL (r_ttl record)))]"
    using assms(2,3) fr by auto
  then have "map fst a = map fst a'" using ks by simp
  then show ?thesis
    unfolding c c' dict_update_def
    by (simp add: keys_dict_update_same)
qed

lemma first_keys_contents_dict:
  assumes "gen_contents record = Inr fragments" and "fragments \<noteq> []"
  shows "first_keys (contents_dict H fragments) = Inr (map fst (hd fragments))"
proof -
  obtain kc rest where d: "contents_dict H fragments = kc # rest"
    using contents_dict_not_Nil [OF assms(2), of H] by (cases "contents_dict H fragments") auto
  have "snd kc \<in> set fragments"
    using contents_dict_values [of H fragments] d by auto
  moreover have "hd fragments \<in> set fragments" using assms(2) by simp
  ultimately have "map fst (snd kc) = map fst (hd fragments)"
    using gen_contents_same_keys [OF assms(1)] by blast
  then show ?thesis by (simp add: first_keys_def d)
qed

lemma mutations_accepted_sess:
  "sess a = sess b \<Longrightarrow> mutations_accepted a = mutations_accepted b"
  by (simp add: mutations_accepted_def)

lemma apply_Update_accepted:
  assumes ef: "gen_contents existing = Inr ef"
    and nf: "gen_contents new = Inr nf"
    and ne: "ef \<noteq> []"
    and zs: "zones fuel self = (Inr zs, self1)"
    and zid: "map_of zs (r_zone_name new) = Some zone_id"
    and recs: "zone_records fuel self1 (r_zone_name new) = (Inr listed, self2)"
    and it: "py_iter listed = Inr records"
    and ok: "mutations_accepted self"
    and rd: "records_readable H (map fst (hd ef)) (contents_dict H nf)
               (butlast (r_fqdn new)) (r_type new) records"
    and removes: "removes = unwanted_paths H (map fst (hd ef)) (contents_dict H nf)
               (butlast (r_fqdn new)) (r_type new) records"
    and adds: "adds = contents_to_add H ef nf"
  shows "apply_Update H fuel self existing new =
           (Inr (),
            self2\<lparr>sent := sent self2 @
               map (\<lambda>pc. put_request (fst pc) (snd pc)) (zip removes adds) @
               map delete_request (drop (length adds) removes) @
               map (post_request (DnsRecords zone_id)) (drop (length removes) adds)\<rparr>)"
proof -
  have keys: "first_keys (contents_dict H ef) = Inr (map fst (hd ef))"
    by (rule first_keys_contents_dict [OF ef ne])
  have "sess self2 = sess self"
    using zones_frame(1) [OF zs] zone_records_frame(1) [OF recs] by simp
  then have ok2: "mutations_accepted self2"
    using ok mutations_accepted_sess by blast
  let ?self3 = "self2\<lparr>sent := sent self2 @
               map (\<lambda>pc. put_request (fst pc) (snd pc)) (zip removes adds) @
               map delete_request (drop (length adds) removes)\<rparr>"
  have loop: "swap_or_remove H (map fst (hd ef)) (contents_dict H nf)
               (butlast (r_fqdn new)) (r_type new) self2 records adds =
             (Inr (drop (length removes) adds), ?self3)"
    using swap_or_remove_accepted [OF ok2 rd, of adds] removes by simp
  have ok3: "mutations_accepted ?self3" using ok2 by simp
  have create: "create_all ?self3 (DnsRecords zone_id) (drop (length removes) adds) =
      (Inr (), ?self3\<lparr>sent := sent ?self3 @
          map (post_request (DnsRecords zone_id)) (drop (length removes) adds)\<rparr>)"
    by (rule create_all_accepted [OF ok3])
  have "apply_Update H fuel self existing new =
          create_all ?self3 (DnsRecords zone_id) (drop (length removes) adds)"
    unfolding apply_Update_def
    by (simp add: ef nf keys Let_def contents_to_add_eq adds [symmetric] zs zid recs it loop)
  then show ?thesis
    unfolding create by simp
qed

section \<open>Properties of the Update reconciliation\<close>

lemma example_wire_fields:
  "example_wire rid name type content = JDict (example_fields rid name type content)"
  by (simp add: example_wire_def example_fields_def)

lemma dict_set_fresh: "k \<notin> fst ` set d \<Longrightarrow> dict_set k v d = d @ [(k, v)]"
  by (induction d) auto

lemma getitem_str_field:
  "map_of r k \<noteq> None \<Longrightarrow> getitem_str (JDict r) k = Inr (field r k)"
  by (auto simp: field_def)

lemma project_fields:
  assumes "distinct keys"
    and "list_all (\<lambda>k. map_of r k \<noteq> None) keys"
    and "set keys \<inter> fst ` set acc = {}"
  shows "project keys (JDict r) acc = Inr (acc @ map (\<lambda>k. (k, field r k)) keys)"
  using assms
proof (induction keys arbitrary: acc)
  case Nil
  then show ?case by simp
next
  case (Cons k keys)
  have k: "getitem_str (JDict r) k = Inr (field r k)"
    using Cons.prems(2) by (auto simp: field_def)
  have fresh: "dict_set k (field r k) acc = acc @ [(k, field r k)]"
    using Cons.prems(3) by (intro dict_set_fresh) auto
  have "set keys \<inter> fst ` set (acc @ [(k, field r k)]) = {}"
    using Cons.prems(1,3) by auto
  then have "project keys (JDict r) (acc @ [(k, field r k)]) =
      Inr ((acc @ [(k, field r k)]) @ map (\<lambda>k. (k, field r k)) keys)"
    using Cons.IH [of "acc @ [(k, field r k)]"] Cons.prems(1,2) by simp
  then show ?case by (simp add: k fresh del: getitem_str.simps)
qed

lemma map_of_map_key:
  "k \<in> set keys \<Longrightarrow> map_of (map (\<lambda>k. (k, f k)) keys) k = Some (f k)"
  by (induction keys) auto

lemma dict_set_map_key:
  assumes "distinct keys" and "k \<in> set keys"
  shows "dict_set k v (map (\<lambda>k'. (k', f k')) keys) =
           map (\<lambda>k'. (k', if k' = k then v else f k')) keys"
  using assms
proof (induction keys)
  case Nil
  then show ?case by simp
next
  case (Cons a keys)
  show ?case
  proof (cases "a = k")
    case True
    then have "k \<notin> set keys" using Cons.prems(1) by simp
    then have "map (\<lambda>k'. (k', if k' = k then v else f k')) keys = map (\<lambda>k'. (k', f k')) keys"
      by (intro map_cong) auto
    then show ?thesis using True by simp
  next
    case False
    then show ?thesis using Cons by simp
  qed
qed

lemma record_content_fields:
  assumes "distinct keys"
    and "list_all (\<lambda>k. map_of r k \<noteq> None) keys"
    and "type = ''CNAME'' \<or> type = ''MX'' \<or> type = ''NS'' \<longrightarrow>
           ''content'' \<in> set keys \<and> has_string_content r"
  shows "record_content keys type (JDict r) = Inr (relevant_fields keys type r)"
proof -
  have p: "project keys (JDict r) [] = Inr (map (\<lambda>k. (k, field r k)) keys)"
    using project_fields [OF assms(1,2), of "[]"] by simp
  show ?thesis
  proof (cases "type = ''CNAME'' \<or> type = ''MX'' \<or> type = ''NS''")
    case False
    then show ?thesis by (simp add: record_content_def p relevant_fields_def)
  next
    case True
    then have c: "''content'' \<in> set keys" and s: "has_string_content r"
      using assms(3) by simp_all
    obtain t where t: "map_of r ''content'' = Some (JStr t)"
      using s by (auto simp: has_string_content_def split: option.splits json.splits)
    have f: "field r ''content'' = JStr t" by (simp add: field_def t)
    have look: "map_of (map (\<lambda>k. (k, field r k)) keys) ''content'' = Some (JStr t)"
      using map_of_map_key [OF c, of "field r"] f by simp
    have set: "dict_set ''content'' (JStr (t @ ''.'')) (map (\<lambda>k. (k, field r k)) keys) =
        map (\<lambda>k'. (k', if k' = ''content'' then JStr (t @ ''.'') else field r k')) keys"
      by (rule dict_set_map_key [OF assms(1) c])
    have "relevant_fields keys type r =
        map (\<lambda>k'. (k', if k' = ''content'' then JStr (t @ ''.'') else field r k')) keys"
      unfolding relevant_fields_def using True f by (intro map_cong) auto
    then show ?thesis
      using True by (simp add: record_content_def p look set)
  qed
qed

lemma unwanted_listed:
  assumes "distinct keys" and "listed_record keys type r"
  shows "unwanted H keys new_contents name type (JDict r) =
           Inr (if map_of r ''name'' = Some (JStr name) \<and> map_of r ''type'' = Some (JStr type) \<and>
                   live_fingerprint H keys type r \<notin> set (map fst new_contents)
                then Some (record_path r) else None)"
proof -
  have n: "getitem_str (JDict r) ''name'' = Inr (field r ''name'')"
    and t: "getitem_str (JDict r) ''type'' = Inr (field r ''type'')"
    and i: "getitem_str (JDict r) ''id'' = Inr (field r ''id'')"
    and z: "getitem_str (JDict r) ''zone_id'' = Inr (field r ''zone_id'')"
    using assms(2) by (auto simp: listed_record_def field_def)
  have fn: "field r ''name'' = JStr name \<longleftrightarrow> map_of r ''name'' = Some (JStr name)"
    using assms(2) by (auto simp: listed_record_def field_def)
  have ft: "field r ''type'' = JStr type \<longleftrightarrow> map_of r ''type'' = Some (JStr type)"
    using assms(2) by (auto simp: listed_record_def field_def)
  show ?thesis
  proof (cases "map_of r ''name'' = Some (JStr name) \<and> map_of r ''type'' = Some (JStr type)")
    case False
    then show ?thesis
      using fn ft by (auto simp: unwanted_def n t simp del: getitem_str.simps)
  next
    case True
    have c: "record_content keys type (JDict r) = Inr (relevant_fields keys type r)"
      using assms True by (intro record_content_fields) (simp_all add: listed_record_def)
    show ?thesis
      using True fn ft
      by (simp add: unwanted_def n t c i z live_fingerprint_def record_path_def
          del: set_map getitem_str.simps)
  qed
qed

lemma unwanted_paths_listed:
  assumes "distinct keys" and "list_all (listed_record keys type) live"
  shows "unwanted_paths H keys new_contents name type (map JDict live) =
           map record_path
             (filter (\<lambda>r. map_of r ''name'' = Some (JStr name) \<and>
                          map_of r ''type'' = Some (JStr type) \<and>
                          live_fingerprint H keys type r \<notin> set (map fst new_contents)) live)"
  using assms(2)
proof (induction live)
  case Nil
  show ?case by (simp add: unwanted_paths_def map_filter_simps)
next
  case (Cons r live)
  have r: "listed_record keys type r" and rest: "list_all (listed_record keys type) live"
    using Cons.prems by simp_all
  have step: "unwanted_paths H keys new_contents name type (JDict r # map JDict live) =
      (case unwanted H keys new_contents name type (JDict r) of
         Inr (Some p) \<Rightarrow> p # unwanted_paths H keys new_contents name type (map JDict live)
       | _ \<Rightarrow> unwanted_paths H keys new_contents name type (map JDict live))"
    by (simp add: unwanted_paths_def map_filter_simps split: sum.splits option.splits)
  show ?case
    using Cons.IH [OF rest]
    by (simp add: step unwanted_listed [OF assms(1) r] del: set_map)
qed

lemma records_readable_listed:
  assumes "distinct keys" and "list_all (listed_record keys type) live"
  shows "records_readable H keys new_contents name type (map JDict live)"
  using assms(2)
  by (induction live) (simp_all add: records_readable_def unwanted_listed [OF assms(1)])

lemma fold_dict_set_keys:
  "set (map fst (fold (\<lambda>c d. dict_set (hash_content H c) c d) contents d)) =
     hash_content H ` set contents \<union> set (map fst d)"
proof (induction contents arbitrary: d)
  case Nil
  show ?case by simp
next
  case (Cons c contents)
  show ?case
    using Cons.IH [of "dict_set (hash_content H c) c d"] keys_dict_set [of "hash_content H c" c d]
    by auto
qed

lemma contents_dict_keys:
  "set (map fst (contents_dict H contents)) = set (map (hash_content H) contents)"
  using fold_dict_set_keys [of H contents "[]"] by (simp add: contents_dict_def)

lemma unwanted_paths_to_remove:
  assumes "distinct keys" and "list_all (listed_record keys type) live"
  shows "unwanted_paths H keys (contents_dict H wanted) name type (map JDict live) =
           map record_path (to_remove H keys wanted name type live)"
  unfolding unwanted_paths_listed [OF assms] to_remove_def contents_dict_keys ..

lemma keys_dict_set_list:
  "map fst (dict_set k v d) = (if k \<in> set (map fst d) then map fst d else map fst d @ [k])"
  by (induction d) auto

lemma gen_contents_keys:
  assumes "gen_contents record = Inr fragments" and "c \<in> set fragments"
  shows "map fst c = [''content'', ''name'', ''type'', ''ttl''] \<or>
         map fst c = [''data'', ''name'', ''type'', ''ttl''] \<or>
         map fst c = [''priority'', ''content'', ''name'', ''type'', ''ttl'']"
proof -
  let ?type = "if r_type record = ''ALIAS'' then ''CNAME'' else r_type record"
  let ?common = "[(''name'', JStr (butlast (r_fqdn record))), (''type'', JStr ?type),
                  (''ttl'', JInt (max MIN_TTL (r_ttl record)))]"
  obtain contents where cf: "contents_for ?type (r_payload record) = Inr contents"
    and fr: "fragments = map (\<lambda>content. dict_update content ?common) contents"
    using assms(1) by (auto simp: gen_contents_def Let_def split: sum.splits)
  obtain a where a: "a \<in> set contents" and c: "c = dict_update a ?common"
    using assms(2) fr by auto
  have "map fst a = [''content''] \<or> map fst a = [''data''] \<or>
        map fst a = [''priority'', ''content'']"
    using contents_for_cases [OF cf] a contents_for_multiple_keys contents_for_CAA_keys
      contents_for_TXT_keys contents_for_CNAME_keys contents_for_MX_keys
    by fastforce
  then show ?thesis
    unfolding c dict_update_def by (auto simp: keys_dict_set_list)
qed

lemma gen_contents_keys_distinct:
  assumes "gen_contents record = Inr fragments" and "fragments \<noteq> []"
  shows "distinct (map fst (hd fragments))"
proof -
  have "hd fragments \<in> set fragments" using assms(2) by simp
  from gen_contents_keys [OF assms(1) this] show ?thesis by auto
qed

lemma apply_Update_listed:
  assumes ef: "gen_contents existing = Inr ef"
    and nf: "gen_contents new = Inr nf"
    and ne: "ef \<noteq> []"
    and zs: "zones fuel self = (Inr zs, self1)"
    and zid: "map_of zs (r_zone_name new) = Some zone_id"
    and recs: "zone_records fuel self1 (r_zone_name new) = (Inr (JList (map JDict live)), self2)"
    and ok: "mutations_accepted self"
    and rd: "list_all (listed_record (map fst (hd ef)) (r_type new)) live"
    and removes: "removes = to_remove H (map fst (hd ef)) nf (butlast (r_fqdn new)) (r_type new) live"
    and adds: "adds = contents_to_add H ef nf"
  shows "apply_Update H fuel self existing new =
           (Inr (),
            self2\<lparr>sent := sent self2 @
               map (\<lambda>pc. put_request (fst pc) (snd pc)) (zip (map record_path removes) adds) @
               map delete_request (drop (length adds) (map record_path removes)) @
               map (post_request (DnsRecords zone_id)) (drop (length removes) adds)\<rparr>)"
proof -
  have d: "distinct (map fst (hd ef))" by (rule gen_contents_keys_distinct [OF ef ne])
  have it: "py_iter (JList (map JDict live)) = Inr (map JDict live)" by simp
  have readable: "records_readable H (map fst (hd ef)) (contents_dict H nf)
      (butlast (r_fqdn new)) (r_type new) (map JDict live)"
    by (rule records_readable_listed [OF d rd])
  have paths: "map record_path removes =
      unwanted_paths H (map fst (hd ef)) (contents_dict H nf)
        (butlast (r_fqdn new)) (r_type new) (map JDict live)"
    unfolding removes by (rule unwanted_paths_to_remove [OF d rd, symmetric])
  show ?thesis
    using apply_Update_accepted [OF ef nf ne zs zid recs it ok readable paths adds]
    by simp
qed

text \<open>
  For every type but ALIAS the listed records are matched by the type they have on the wire.
  Then, with as many contents to add as listed records to remove, and at least one,
  \<open>_apply_Update\<close> sends exactly one \<open>PUT\<close> for each of these records and nothing else.
\<close>

lemma apply_Update_swaps:
  assumes "gen_contents existing = Inr ef"
    and "gen_contents new = Inr nf"
    and "ef \<noteq> []"
    and "zones fuel self = (Inr zs, self1)"
    and "map_of zs (r_zone_name new) = Some zone_id"
    and "zone_records fuel self1 (r_zone_name new) = (Inr (JList (map JDict live)), self2)"
    and "mutations_accepted self"
    and "list_all (listed_record (map fst (hd ef)) (wire_type (r_type new))) live"
    and "removes = to_remove H (map fst (hd ef)) nf (butlast (r_fqdn new))
                     (wire_type (r_type new)) live"
    and "adds = contents_to_add H ef nf"
    and "r_type new \<noteq> ''ALIAS''"
    and "length adds = length removes"
    and "removes \<noteq> []"
  shows "apply_Update H fuel self existing new =
           (Inr (),
            self2\<lparr>sent := sent self2 @
               map (\<lambda>pc. put_request (fst pc) (snd pc)) (zip (map record_path removes) adds)\<rparr>) \<and>
         length (zip (map record_path removes) adds) = length removes"
proof -
  have w: "wire_type (r_type new) = r_type new" using assms(11) by (simp add: wire_type_def)
  show ?thesis
    using apply_Update_listed [OF assms(1-7) assms(8) [unfolded w] assms(9) [unfolded w] assms(10)]
      assms(12)
    by simp
qed

lemma apply_Update_swaps_example:
  "apply_Update (\<lambda>j. j) 0
     (example_provider [example_wire ''r1'' ''a.unit.tests'' ''CNAME'' ''old.''])
     (example_record ''a'' ''CNAME'' 300 (Value ''old.''))
     (example_record ''a'' ''CNAME'' 300 (Value ''new.'')) =
   (Inr (),
    (example_provider [example_wire ''r1'' ''a.unit.tests'' ''CNAME'' ''old.''])
      \<lparr>sent := [put_request (DnsRecord (JStr ''z1'') (JStr ''r1''))
                  [(''content'', JStr ''new.''), (''name'', JStr ''a.unit.tests''),
                   (''type'', JStr ''CNAME''), (''ttl'', JInt 300)]]\<rparr>)"
proof -
  let ?live = "[example_fields ''r1'' ''a.unit.tests'' ''CNAME'' ''old.'']"
  let ?self = "example_provider [example_wire ''r1'' ''a.unit.tests'' ''CNAME'' ''old.'']"
  let ?existing = "example_record ''a'' ''CNAME'' 300 (Value ''old.'')"
  let ?new = "example_record ''a'' ''CNAME'' 300 (Value ''new.'')"
  let ?ef = "[[(''content'', JStr ''old.''), (''name'', JStr ''a.unit.tests''),
               (''type'', JStr ''CNAME''), (''ttl'', JInt 300)]]"
  let ?nf = "[[(''content'', JStr ''new.''), (''name'', JStr ''a.unit.tests''),
               (''type'', JStr ''CNAME''), (''ttl'', JInt 300)]]"
  have ef: "gen_contents ?existing = Inr ?ef" by code_simp
  have nf: "gen_contents ?new = Inr ?nf" by code_simp
  have ne: "?ef \<noteq> []" by simp
  have zs: "zones 0 ?self = (Inr [(''unit.tests.'', JStr ''z1'')], ?self)"
    by (simp add: zones_def example_provider_def)
  have zid: "map_of [(''unit.tests.'', JStr ''z1'')] (r_zone_name ?new) = Some (JStr ''z1'')"
    by (simp add: example_record_def)
  have recs: "zone_records 0 ?self (r_zone_name ?new) = (Inr (JList (map JDict ?live)), ?self)"
    by (simp add: zone_records_def example_provider_def example_record_def example_wire_fields)
  have ok: "mutations_accepted ?self"
    by (simp add: mutations_accepted_def example_provider_def accepted_def)
  have rd: "list_all (listed_record (map fst (hd ?ef)) (wire_type (r_type ?new))) ?live"
    by (simp add: listed_record_def example_fields_def example_record_def wire_type_def
        has_string_content_def)
  have removes: "?live = to_remove (\<lambda>j. j) (map fst (hd ?ef)) ?nf (butlast (r_fqdn ?new))
      (wire_type (r_type ?new)) ?live"
    by code_simp
  have adds: "?nf = contents_to_add (\<lambda>j. j) ?ef ?nf" by code_simp
  have type: "r_type ?new \<noteq> ''ALIAS''" by (simp add: example_record_def)
  show ?thesis
    using apply_Update_swaps [OF ef nf ne zs zid recs ok rd removes adds type]
    by (simp add: example_provider_def example_fields_def record_path_def field_def)
qed

text \<open>
  C1. The claim fails for the update of an ALIAS record. Its fragments have the wire type
  CNAME, and the root CNAME that the service lists with the old target is a listed record
  of the name and wire type whose fingerprint is not wanted: one content to add, one record
  to remove. \<open>_apply_Update\<close> compares the type of a listed record with \<open>'ALIAS'\<close>, matches
  no record, and sends no \<open>PUT\<close>: it creates a second root CNAME with a \<open>POST\<close>.
  \<open>_gen_contents\<close> does turn ALIAS into CNAME; the matching does not.
\<close>

theorem apply_Update_ALIAS_creates_and_swaps_nothing:
  "gen_contents (example_record [] ''ALIAS'' 300 (Value ''old.unit.tests.'')) =
     Inr [[(''content'', JStr ''old.unit.tests.''), (''name'', JStr ''unit.tests''),
           (''type'', JStr ''CNAME''), (''ttl'', JInt 300)]] \<and>
   contents_to_add (\<lambda>j. j)
     [[(''content'', JStr ''old.unit.tests.''), (''name'', JStr ''unit.tests''),
       (''type'', JStr ''CNAME''), (''ttl'', JInt 300)]]
     [[(''content'', JStr ''new.unit.tests.''), (''name'', JStr ''unit.tests''),
       (''type'', JStr ''CNAME''), (''ttl'', JInt 300)]] =
     [[(''content'', JStr ''new.unit.tests.''), (''name'', JStr ''unit.tests''),
       (''type'', JStr ''CNAME''), (''ttl'', JInt 300)]] \<and>
   to_remove (\<lambda>j. j) [''content'', ''name'', ''type'', ''ttl'']
     [[(''content'', JStr ''new.unit.tests.''), (''name'', JStr ''unit.tests''),
       (''type'', JStr ''CNAME''), (''ttl'', JInt 300)]]
     ''unit.tests'' (wire_type ''ALIAS'')
     [example_fields ''r1'' ''unit.tests'' ''CNAME'' ''old.unit.tests''] =
     [example_fields ''r1'' ''unit.tests'' ''CNAME'' ''old.unit.tests''] \<and>
   fst (apply_Update (\<lambda>j. j) 0
     (example_provider [example_wire ''r1'' ''unit.tests'' ''CNAME'' ''old.unit.tests''])
     (example_record [] ''ALIAS'' 300 (Value ''old.unit.tests.''))
     (example_record [] ''ALIAS'' 300 (Value ''new.unit.tests.''))) = Inr () \<and>
   sent (snd (apply_Update (\<lambda>j. j) 0
     (example_provider [example_wire ''r1'' ''unit.tests'' ''CNAME'' ''old.unit.tests''])
     (example_record [] ''ALIAS'' 300 (Value ''old.unit.tests.''))
     (example_record [] ''ALIAS'' 300 (Value ''new.unit.tests.'')))) =
     [post_request (DnsRecords (JStr ''z1''))
        [(''content'', JStr ''new.unit.tests.''), (''name'', JStr ''unit.tests''),
         (''type'', JStr ''CNAME''), (''ttl'', JInt 300)]]"
  by code_simp

lemma listed_record_ALIAS:
  assumes "listed_record keys type r" and "map_of r ''type'' \<noteq> Some (JStr ''ALIAS'')"
  shows "listed_record keys ''ALIAS'' r"
  using assms by (simp add: listed_record_def)

lemma to_remove_ALIAS:
  assumes "list_all (\<lambda>r. map_of r ''type'' \<noteq> Some (JStr ''ALIAS'')) live"
  shows "to_remove H keys wanted name ''ALIAS'' live = []"
  using assms by (induction live) (simp_all add: to_remove_def)

text \<open>
  C2 (as amended). Apply an \<open>Update\<close> again, against the state the first run leaves: every
  listed record of the change's name and wire type (CNAME for an ALIAS) has the fingerprint
  of a wanted fragment, that is, its relevant fields are those of a fragment of the new
  record, where the content of a CNAME, MX or NS record is listed without the final dot of
  the wanted content; none is a record to remove. The service lists its records as it sends
  them, by their wire types, none as ALIAS. Then \<open>_apply_Update\<close> sends no \<open>PUT\<close>
  and no \<open>DELETE\<close>. It sends one \<open>POST\<close> for each new content whose hash is not the hash
  of an existing content, since the contents to add come from the two records of the change
  and not from the listed records. So the second run sends nothing exactly when there is no
  such content.
\<close>

theorem apply_Update_again:
  assumes "gen_contents existing = Inr ef"
    and "gen_contents new = Inr nf"
    and "ef \<noteq> []"
    and "zones fuel self = (Inr zs, self1)"
    and "map_of zs (r_zone_name new) = Some zone_id"
    and "zone_records fuel self1 (r_zone_name new) = (Inr (JList (map JDict live)), self2)"
    and "mutations_accepted self"
    and "list_all (listed_record (map fst (hd ef)) (wire_type (r_type new))) live"
    and "list_all (\<lambda>r. map_of r ''type'' \<noteq> Some (JStr ''ALIAS'')) live"
    and "to_remove H (map fst (hd ef)) nf (butlast (r_fqdn new)) (wire_type (r_type new)) live = []"
  shows "apply_Update H fuel self existing new =
           (Inr (),
            self2\<lparr>sent := sent self2 @
               map (post_request (DnsRecords zone_id)) (contents_to_add H ef nf)\<rparr>)"
proof -
  have rd: "list_all (listed_record (map fst (hd ef)) (r_type new)) live"
  proof (cases "r_type new = ''ALIAS''")
    case True
    have "listed_record (map fst (hd ef)) ''ALIAS'' r" if "r \<in> set live" for r
      using that assms(8,9) listed_record_ALIAS [of "map fst (hd ef)" "wire_type (r_type new)" r]
      by (simp add: list_all_iff)
    then show ?thesis using True by (simp add: list_all_iff)
  next
    case False
    then show ?thesis using assms(8) by (simp add: wire_type_def)
  qed
  have none: "[] = to_remove H (map fst (hd ef)) nf (butlast (r_fqdn new)) (r_type new) live"
  proof (cases "r_type new = ''ALIAS''")
    case True
    have "to_remove H (map fst (hd ef)) nf (butlast (r_fqdn new)) ''ALIAS'' live = []"
      by (rule to_remove_ALIAS [OF assms(9)])
    then show ?thesis using True by simp
  next
    case False
    then show ?thesis using assms(10) by (simp add: wire_type_def)
  qed
  show ?thesis
    using apply_Update_listed [OF assms(1-7) rd none refl] by simp
qed

theorem apply_Update_again_witness:
  "apply_Update (\<lambda>j. j) 0
     (example_provider [example_wire ''r1'' ''a.unit.tests'' ''CNAME'' ''new''])
     (example_record ''a'' ''CNAME'' 300 (Value ''old.''))
     (example_record ''a'' ''CNAME'' 300 (Value ''new.'')) =
   (Inr (),
    (example_provider [example_wire ''r1'' ''a.unit.tests'' ''CNAME'' ''new''])
      \<lparr>sent := [post_request (DnsRecords (JStr ''z1''))
                  [(''content'', JStr ''new.''), (''name'', JStr ''a.unit.tests''),
                   (''type'', JStr ''CNAME''), (''ttl'', JInt 300)]]\<rparr>)"
proof -
  let ?live = "[example_fields ''r1'' ''a.unit.tests'' ''CNAME'' ''new'']"
  let ?self = "example_provider [example_wire ''r1'' ''a.unit.tests'' ''CNAME'' ''new'']"
  let ?existing = "example_record ''a'' ''CNAME'' 300 (Value ''old.'')"
  let ?new = "example_record ''a'' ''CNAME'' 300 (Value ''new.'')"
  let ?ef = "[[(''content'', JStr ''old.''), (''name'', JStr ''a.unit.tests''),
               (''type'', JStr ''CNAME''), (''ttl'', JInt 300)]]"
  let ?nf = "[[(''content'', JStr ''new.''), (''name'', JStr ''a.unit.tests''),
               (''type'', JStr ''CNAME''), (''ttl'', JInt 300)]]"
  have ef: "gen_contents ?existing = Inr ?ef" by code_simp
  have nf: "gen_contents ?new = Inr ?nf" by code_simp
  have ne: "?ef \<noteq> []" by simp
  have zs: "zones 0 ?self = (Inr [(''unit.tests.'', JStr ''z1'')], ?self)"
    by (simp add: zones_def example_provider_def)
  have zid: "map_of [(''unit.tests.'', JStr ''z1'')] (r_zone_name ?new) = Some (JStr ''z1'')"
    by (simp add: example_record_def)
  have recs: "zone_records 0 ?self (r_zone_name ?new) = (Inr (JList (map JDict ?live)), ?self)"
    by (simp add: zone_records_def example_provider_def example_record_def example_wire_fields)
  have ok: "mutations_accepted ?self"
    by (simp add: mutations_accepted_def example_provider_def accepted_def)
  have rd: "list_all (listed_record (map fst (hd ?ef)) (wire_type (r_type ?new))) ?live"
    by (simp add: listed_record_def example_fields_def example_record_def wire_type_def
        has_string_content_def)
  have wire: "list_all (\<lambda>r. map_of r ''type'' \<noteq> Some (JStr ''ALIAS'')) ?live"
    by (simp add: example_fields_def)
  have state: "to_remove (\<lambda>j. j) (map fst (hd ?ef)) ?nf (butlast (r_fqdn ?new))
      (wire_type (r_type ?new)) ?live = []"
    by code_simp
  have adds: "contents_to_add (\<lambda>j. j) ?ef ?nf = ?nf" by code_simp
  show ?thesis
    using apply_Update_again [OF ef nf ne zs zid recs ok rd wire state]
    by (simp add: adds example_provider_def post_request_def)
qed

text \<open>
  The dot matters for the state described: a CNAME listed with the content \<open>new.\<close>, the
  wanted content with its dot, is taken for \<open>new..\<close>, is a record to remove, and the second
  run swaps it again.
\<close>

lemma apply_Update_again_listed_with_dot:
  "to_remove (\<lambda>j. j) [''content'', ''name'', ''type'', ''ttl'']
     [[(''content'', JStr ''new.''), (''name'', JStr ''a.unit.tests''),
       (''type'', JStr ''CNAME''), (''ttl'', JInt 300)]]
     ''a.unit.tests'' ''CNAME'' [example_fields ''r1'' ''a.unit.tests'' ''CNAME'' ''new.''] =
     [example_fields ''r1'' ''a.unit.tests'' ''CNAME'' ''new.''] \<and>
   sent (snd (apply_Update (\<lambda>j. j) 0
     (example_provider [example_wire ''r1'' ''a.unit.tests'' ''CNAME'' ''new.''])
     (example_record ''a'' ''CNAME'' 300 (Value ''old.''))
     (example_record ''a'' ''CNAME'' 300 (Value ''new.'')))) =
     [put_request (DnsRecord (JStr ''z1'') (JStr ''r1''))
        [(''content'', JStr ''new.''), (''name'', JStr ''a.unit.tests''),
         (''type'', JStr ''CNAME''), (''ttl'', JInt 300)]]"
  by code_simp

text \<open>
  The claim as stated fails whenever the new record has a content that the existing one has
  not. Changing the address of \<open>a\<close> from 1.1.1.1 to 2.2.2.2 swaps the listed record on the
  first run; on the second run, against the record that now carries 2.2.2.2 and is left
  alone, the same change creates a second record with the address 2.2.2.2.
\<close>

theorem apply_Update_again_counterexample:
  "sent (snd (apply_Update (\<lambda>j. j) 0
     (example_provider [example_wire ''r1'' ''a.unit.tests'' ''A'' ''1.1.1.1''])
     (example_record ''a'' ''A'' 300 (Values [''1.1.1.1'']))
     (example_record ''a'' ''A'' 300 (Values [''2.2.2.2''])))) =
     [put_request (DnsRecord (JStr ''z1'') (JStr ''r1''))
        [(''content'', JStr ''2.2.2.2''), (''name'', JStr ''a.unit.tests''),
         (''type'', JStr ''A''), (''ttl'', JInt 300)]] \<and>
   unwanted_paths (\<lambda>j. j) [''content'', ''name'', ''type'', ''ttl'']
     (contents_dict (\<lambda>j. j)
        [[(''content'', JStr ''2.2.2.2''), (''name'', JStr ''a.unit.tests''),
          (''type'', JStr ''A''), (''ttl'', JInt 300)]])
     ''a.unit.tests'' ''A'' [example_wire ''r1'' ''a.unit.tests'' ''A'' ''2.2.2.2''] = [] \<and>
   sent (snd (apply_Update (\<lambda>j. j) 0
     (example_provider [example_wire ''r1'' ''a.unit.tests'' ''A'' ''2.2.2.2''])
     (example_record ''a'' ''A'' 300 (Values [''1.1.1.1'']))
     (example_record ''a'' ''A'' 300 (Values [''2.2.2.2''])))) =
     [post_request (DnsRecords (JStr ''z1''))
        [(''content'', JStr ''2.2.2.2''), (''name'', JStr ''a.unit.tests''),
         (''type'', JStr ''A''), (''ttl'', JInt 300)]]"
  by code_simp



section \<open>The record cache after an apply\<close>

lemma create_all_frame:
  assumes "create_all self p contents = (r, self')"
  shows "zone_records_cache self' = zone_records_cache self"
  using assms
proof (induction contents arbitrary: self)
  case Nil
  then show ?case by simp
next
  case (Cons c contents)
  obtain r1 self1 where rq: "request self ''POST'' p None (Some (JDict c)) = (r1, self1)"
    by (cases "request self ''POST'' p None (Some (JDict c))")
  show ?case
    using Cons.prems Cons.IH [of self1] request_frame(3) [OF rq]
    by (auto simp: rq split: sum.splits)
qed

lemma swap_or_remove_frame:
  assumes "swap_or_remove H keys new_contents name type self records adds = (r, self')"
  shows "zone_records_cache self' = zone_records_cache self"
  using assms
proof (induction records arbitrary: self adds)
  case Nil
  then show ?case by simp
next
  case (Cons rec records)
  show ?case
  proof (cases "unwanted H keys new_contents name type rec")
    case (Inl e)
    then show ?thesis using Cons.prems by simp
  next
    case (Inr u)
    show ?thesis
    proof (cases u)
      case None
      then show ?thesis using Cons.prems Cons.IH [of self adds] Inr by simp
    next
      case (Some p)
      show ?thesis
      proof (cases adds)
        case Nil
        obtain r1 self1 where rq: "request self ''DELETE'' p None None = (r1, self1)"
          by (cases "request self ''DELETE'' p None None")
        show ?thesis
          using Cons.prems Cons.IH [of self1 "[]"] request_frame(3) [OF rq] Inr Some Nil
          by (auto simp: rq split: sum.splits)
      next
        case (Cons a adds')
        obtain r1 self1 where rq: "request self ''PUT'' p None (Some (JDict a)) = (r1, self1)"
          by (cases "request self ''PUT'' p None (Some (JDict a))")
        show ?thesis
          using Cons.prems Cons.IH [of self1 adds'] request_frame(3) [OF rq] Inr Some Cons
          by (auto simp: rq split: sum.splits)
      qed
    qed
  qed
qed

lemma delete_matching_frame:
  assumes "delete_matching name type self records = (r, self')"
  shows "zone_records_cache self' = zone_records_cache self"
  using assms
proof (induction records arbitrary: self)
  case Nil
  then show ?case by simp
next
  case (Cons rec records)
  show ?case
    using Cons.prems Cons.IH
    by (auto split: sum.splits if_splits prod.splits dest: request_frame(3))
qed

lemma apply_Create_frame:
  assumes "apply_Create fuel self new = (r, self')"
  shows "zone_records_cache self' = zone_records_cache self"
proof -
  obtain r1 self1 where z1: "zones fuel self = (r1, self1)" by (cases "zones fuel self")
  have c1: "zone_records_cache self1 = zone_records_cache self" by (rule zones_frame(2) [OF z1])
  have "zone_records_cache self' = zone_records_cache self1"
    using assms
    by (auto simp: apply_Create_def z1 split: sum.splits option.splits dest: create_all_frame)
  then show ?thesis using c1 by simp
qed

lemma apply_Delete_frame:
  assumes "apply_Delete fuel self existing = (r, self')" and "z \<noteq> r_zone_name existing"
  shows "zone_records_cache self' z = zone_records_cache self z"
proof -
  obtain r1 self1 where z1: "zone_records fuel self (r_zone_name existing) = (r1, self1)"
    by (cases "zone_records fuel self (r_zone_name existing)")
  have c1: "zone_records_cache self1 z = zone_records_cache self z"
    by (rule zone_records_frame(2) [OF z1 assms(2)])
  have "zone_records_cache self' = zone_records_cache self1"
    using assms(1)
    by (auto simp: apply_Delete_def z1 split: sum.splits dest: delete_matching_frame)
  then show ?thesis using c1 by simp
qed

lemma apply_Update_frame:
  assumes "apply_Update H fuel self existing new = (r, self')" and "z \<noteq> r_zone_name new"
  shows "zone_records_cache self' z = zone_records_cache self z"
proof -
  obtain r1 self1 where z1: "zones fuel self = (r1, self1)" by (cases "zones fuel self")
  obtain r2 self2 where z2: "zone_records fuel self1 (r_zone_name new) = (r2, self2)"
    by (cases "zone_records fuel self1 (r_zone_name new)")
  have c1: "zone_records_cache self1 = zone_records_cache self" by (rule zones_frame(2) [OF z1])
  have c2: "zone_records_cache self2 z = zone_records_cache self z"
    using zone_records_frame(2) [OF z2 assms(2)] c1 by simp
  have "zone_records_cache self' = zone_records_cache self \<or>
        zone_records_cache self' = zone_records_cache self1 \<or>
        zone_records_cache self' = zone_records_cache self2"
    using assms(1)
    by (auto simp: apply_Update_def Let_def z1 z2 split: sum.splits prod.splits option.splits
        dest!: swap_or_remove_frame create_all_frame)
  then show ?thesis using c1 c2 by auto
qed

lemma apply_change_frame:
  assumes "apply_change H fuel self c = (r, self')" and "z \<noteq> r_zone_name (change_record c)"
  shows "zone_records_cache self' z = zone_records_cache self z"
  using assms
  by (cases c) (auto dest: apply_Create_frame apply_Update_frame apply_Delete_frame)

lemma apply_changes_frame:
  assumes "apply_changes H fuel self changes = (r, self')"
    and "\<forall>c \<in> set changes. r_zone_name (change_record c) = name"
    and "z \<noteq> name"
  shows "zone_records_cache self' z = zone_records_cache self z"
  using assms
proof (induction changes arbitrary: self)
  case Nil
  then show ?case by simp
next
  case (Cons c changes)
  obtain r1 self1 where a: "apply_change H fuel self c = (r1, self1)"
    by (cases "apply_change H fuel self c")
  have k: "zone_records_cache self1 z = zone_records_cache self z"
    using apply_change_frame [OF a, of z] Cons.prems(2,3) by simp
  show ?case
  proof (cases r1)
    case (Inl e)
    then show ?thesis using Cons.prems(1) a k by simp
  next
    case (Inr u)
    then have "apply_changes H fuel self1 changes = (r, self')"
      using Cons.prems(1) a by simp
    then show ?thesis using Cons.IH [of self1] Cons.prems(2,3) k by simp
  qed
qed

lemma ensure_zone_frame:
  assumes "ensure_zone fuel self name = (r, self')" and "z \<noteq> name"
  shows "zone_records_cache self' z = zone_records_cache self z"
proof -
  obtain r1 self1 where z1: "zones fuel self = (r1, self1)" by (cases "zones fuel self")
  have c1: "zone_records_cache self1 = zone_records_cache self" by (rule zones_frame(2) [OF z1])
  obtain r2 self2 where rq: "request self1 ''POST'' Zones None
      (Some (JDict [(''name'', JStr (butlast name)), (''jump_start'', JBool False)])) = (r2, self2)"
    by (cases "request self1 ''POST'' Zones None
      (Some (JDict [(''name'', JStr (butlast name)), (''jump_start'', JBool False)]))")
  have c2: "zone_records_cache self2 = zone_records_cache self1" by (rule request_frame(3) [OF rq])
  have "zone_records_cache self' z = zone_records_cache self1 z"
    using assms c2
    by (auto simp: ensure_zone_def z1 rq split: sum.splits if_splits)
  then show ?thesis using c1 by simp
qed

text \<open>
  C8. When \<open>_apply\<close> completes a plan whose changes are about records of the plan's zone,
  whatever their number and kinds, the record cache has no entry for the zone's name, and
  its entries for all other names are what they were before.
\<close>

theorem apply_plan_evicts:
  assumes "apply_plan H fuel self name changes = (Inr (), self')"
    and "\<forall>c \<in> set changes. r_zone_name (change_record c) = name"
  shows "zone_records_cache self' = (zone_records_cache self)(name := None)"
proof -
  obtain u1 self1 where e: "ensure_zone fuel self name = (Inr u1, self1)"
    using assms(1) by (auto simp: apply_plan_def split: sum.splits prod.splits)
  obtain u2 self2 where a: "apply_changes H fuel self1 changes = (Inr u2, self2)"
    using assms(1) e by (auto simp: apply_plan_def split: sum.splits prod.splits)
  have s: "self' = self2\<lparr>zone_records_cache := (zone_records_cache self2)(name := None)\<rparr>"
    using assms(1) e a by (simp add: apply_plan_def)
  show ?thesis
  proof
    fix z
    show "zone_records_cache self' z = ((zone_records_cache self)(name := None)) z"
    proof (cases "z = name")
      case True
      then show ?thesis by (simp add: s)
    next
      case False
      then show ?thesis
        using ensure_zone_frame [OF e False] apply_changes_frame [OF a assms(2) False]
        by (simp add: s)
    qed
  qed
qed

theorem apply_plan_evicts_witness:
  "fst (apply_plan (\<lambda>j. j) 0
     ((example_provider [example_wire ''r1'' ''a.unit.tests'' ''CNAME'' ''old'',
                         example_wire ''r2'' ''c.unit.tests'' ''A'' ''4.4.4.4''])
        \<lparr>zone_records_cache :=
           [''unit.tests.'' \<mapsto> JList [example_wire ''r1'' ''a.unit.tests'' ''CNAME'' ''old'',
                                        example_wire ''r2'' ''c.unit.tests'' ''A'' ''4.4.4.4''],
            ''other.tests.'' \<mapsto> JList []]\<rparr>)
     ''unit.tests.''
     [Create (example_record ''b'' ''A'' 300 (Values [''3.3.3.3''])),
      Update (example_record ''a'' ''CNAME'' 300 (Value ''old.''))
             (example_record ''a'' ''CNAME'' 300 (Value ''new.'')),
      Delete (example_record ''c'' ''A'' 300 (Values [''4.4.4.4'']))]) = Inr () \<and>
   zone_records_cache (snd (apply_plan (\<lambda>j. j) 0
     ((example_provider [example_wire ''r1'' ''a.unit.tests'' ''CNAME'' ''old'',
                         example_wire ''r2'' ''c.unit.tests'' ''A'' ''4.4.4.4''])
        \<lparr>zone_records_cache :=
           [''unit.tests.'' \<mapsto> JList [example_wire ''r1'' ''a.unit.tests'' ''CNAME'' ''old'',
                                        example_wire ''r2'' ''c.unit.tests'' ''A'' ''4.4.4.4''],
            ''other.tests.'' \<mapsto> JList []]\<rparr>)
     ''unit.tests.''
     [Create (example_record ''b'' ''A'' 300 (Values [''3.3.3.3''])),
      Update (example_record ''a'' ''CNAME'' 300 (Value ''old.''))
             (example_record ''a'' ''CNAME'' 300 (Value ''new.'')),
      Delete (example_record ''c'' ''A'' 300 (Values [''4.4.4.4'']))])) =
     [''other.tests.'' \<mapsto> JList []]"
proof -
  let ?self = "(example_provider [example_wire ''r1'' ''a.unit.tests'' ''CNAME'' ''old'',
                         example_wire ''r2'' ''c.unit.tests'' ''A'' ''4.4.4.4''])
        \<lparr>zone_records_cache :=
           [''unit.tests.'' \<mapsto> JList [example_wire ''r1'' ''a.unit.tests'' ''CNAME'' ''old'',
                                        example_wire ''r2'' ''c.unit.tests'' ''A'' ''4.4.4.4''],
            ''other.tests.'' \<mapsto> JList []]\<rparr>"
  let ?changes = "[Create (example_record ''b'' ''A'' 300 (Values [''3.3.3.3''])),
      Update (example_record ''a'' ''CNAME'' 300 (Value ''old.''))
             (example_record ''a'' ''CNAME'' 300 (Value ''new.'')),
      Delete (example_record ''c'' ''A'' 300 (Values [''4.4.4.4'']))]"
  have completes: "fst (apply_plan (\<lambda>j. j) 0 ?self ''unit.tests.'' ?changes) = Inr ()"
    by code_simp
  then have run: "apply_plan (\<lambda>j. j) 0 ?self ''unit.tests.'' ?changes =
      (Inr (), snd (apply_plan (\<lambda>j. j) 0 ?self ''unit.tests.'' ?changes))"
    by (simp add: prod_eq_iff)
  have zone: "\<forall>c \<in> set ?changes. r_zone_name (change_record c) = ''unit.tests.''"
    by (simp add: example_record_def)
  have "zone_records_cache (snd (apply_plan (\<lambda>j. j) 0 ?self ''unit.tests.'' ?changes)) =
      (zone_records_cache ?self)(''unit.tests.'' := None)"
    by (rule apply_plan_evicts [OF run zone])
  moreover have "(zone_records_cache ?self)(''unit.tests.'' := None) = [''other.tests.'' \<mapsto> JList []]"
    by (auto simp: fun_eq_iff)
  ultimately show ?thesis using completes by simp
qed

end
